theory Spec2Isabelle
  imports Main "HOL-Library.Word" "HOL-Library.List_Lexorder" "HOL-Library.Char_ord"
begin

section \<open>The kchain ABCI application (abci/main.go)\<close>

text \<open>
  A shallow embedding of \<^verbatim>\<open>PersistentApplication\<close> and its ABCI methods.
  Go's \<^verbatim>\<open>[]byte\<close> and \<^verbatim>\<open>string\<close> are both byte sequences; the conversions
  \<^verbatim>\<open>string(b)\<close> and \<^verbatim>\<open>[]byte(s)\<close> are the identity on them. Logging is not
  modelled. A Go panic is the \<open>Inl\<close> branch of a sum.
\<close>

subsection \<open>Data\<close>

type_synonym bytes = string

text \<open>
  Modelled from the spec: the response codes of package \<^verbatim>\<open>kchain/types/code\<close>, which is
  not among the sources. The spec lists OK, EncodingError, BadNonce and Unauthorized as
  distinct codes. \<open>Ok\<close> is also the zero value of a response's code field (ABCI's
  \<^verbatim>\<open>CodeTypeOK\<close> is 0), which is what a response carries when no code is assigned.
\<close>

datatype code = Ok | CodeTypeEncodingError | CodeTypeBadNonce | CodeTypeUnauthorized

datatype panic = Panic string

text \<open>\<^verbatim>\<open>types.Validator{PubKey []byte, Power int64}\<close>; no arithmetic is done on the power.\<close>

record Validator =
  PubKey :: bytes
  Power :: int

text \<open>
  The account returned by \<^verbatim>\<open>tx1.ToAccount()\<close>: DeliverTx concatenates its
  \<^verbatim>\<open>PubKey\<close> to a string and passes its \<^verbatim>\<open>Power\<close> to \<^verbatim>\<open>strconv.Itoa\<close>.
\<close>

record Account =
  acc_PubKey :: string
  acc_Power :: int

text \<open>
  The struct \<^verbatim>\<open>Transaction\<close> is declared in a file that is not among the sources.
  The methods below read its fields \<^verbatim>\<open>Type\<close>, \<^verbatim>\<open>Signature\<close> and
  \<^verbatim>\<open>SignPubKey\<close>; \<open>Body\<close> stands for whatever else the struct holds.
\<close>

record Transaction =
  Type :: string
  Signature :: string
  SignPubKey :: string
  Body :: bytes

text \<open>\<^verbatim>\<open>ktx.Db\<close>, of which Query reads the field \<^verbatim>\<open>Key\<close>.\<close>

record Db =
  Key :: string

text \<open>\<^verbatim>\<open>types.ResponseDeliverTx\<close> and \<^verbatim>\<open>types.ResponseCheckTx\<close>: code and log.\<close>

record Response =
  Code :: code
  Log :: string

record ResponseCommit =
  commit_Code :: code
  commit_Data :: bytes

record ResponseQuery =
  query_Code :: code
  query_Index :: int
  query_Key :: bytes
  query_Value :: bytes
  query_Log :: string

subsection \<open>The versioned tree\<close>

text \<open>
  Modelled from the spec: the StateStore, \<^verbatim>\<open>iavl.VersionedTree\<close> of the library
  \<^verbatim>\<open>github.com/tendermint/iavl\<close>. The working tree is the list of its key/value pairs in
  ascending key order (the order of \<^verbatim>\<open>Iterate\<close>), with the latest saved version and the
  versions saved so far. A \<^verbatim>\<open>nil\<close> value is \<open>None\<close>.
\<close>

record VersionedTree =
  entries :: "(bytes \<times> bytes) list"
  latestVersion :: "64 word"
  versions :: "64 word list"

definition tree_Has :: "VersionedTree \<Rightarrow> bytes \<Rightarrow> bool" where
  "tree_Has t k = (k \<in> fst ` set (entries t))"

text \<open>
  \<^verbatim>\<open>Get\<close> returns the index of the key in the tree, or the index it would have when it is
  absent, and the value, \<^verbatim>\<open>nil\<close> when absent.
\<close>

definition tree_Get :: "VersionedTree \<Rightarrow> bytes \<Rightarrow> int \<times> bytes option" where
  "tree_Get t k = (int (length (filter (\<lambda>p. fst p < k) (entries t))), map_of (entries t) k)"

definition tree_Remove :: "bytes \<Rightarrow> VersionedTree \<Rightarrow> VersionedTree" where
  "tree_Remove k t = t\<lparr>entries := filter (\<lambda>p. fst p \<noteq> k) (entries t)\<rparr>"

definition tree_Set :: "bytes \<Rightarrow> bytes \<Rightarrow> VersionedTree \<Rightarrow> VersionedTree" where
  "tree_Set k v t =
     t\<lparr>entries := insort_key fst (k, v) (filter (\<lambda>p. fst p \<noteq> k) (entries t))\<rparr>"

text \<open>
  \<^verbatim>\<open>SaveVersion\<close> refuses a version that was saved before, an empty tree (its root is
  \<^verbatim>\<open>nil\<close>) and version 0; otherwise the version becomes the latest one and the root hash
  is returned. The hash function is a parameter.
\<close>

definition tree_SaveVersion ::
  "((bytes \<times> bytes) list \<Rightarrow> bytes) \<Rightarrow> 64 word \<Rightarrow> VersionedTree \<Rightarrow> string + (bytes \<times> VersionedTree)" where
  "tree_SaveVersion h version t =
     (if version \<in> set (versions t) then Inl ''version was already saved''
      else if entries t = [] then Inl ''tree root is nil''
      else if version = 0 then Inl ''version must be greater than zero''
      else Inr (h (entries t), t\<lparr>latestVersion := version, versions := version # versions t\<rparr>))"

subsection \<open>What main.go uses and does not define\<close>

text \<open>
  The constants of package \<^verbatim>\<open>kchain/types/cnst\<close>, the two key prefixes of package
  \<^verbatim>\<open>abci\<close>, the methods of \<^verbatim>\<open>Transaction\<close>, the package variable \<^verbatim>\<open>json\<close> and the
  library's message codec are not among the sources: they are parameters of the model. A
  method that returns a value and an error returns both here, as in Go; the error is
  \<open>None\<close> for \<^verbatim>\<open>nil\<close>. The methods of \<^verbatim>\<open>Transaction\<close> have no access to the
  application; \<^verbatim>\<open>DbSave\<close>, which the spec says writes the key/value pair into the
  StateStore, is a function on the tree.
\<close>

record env =
  cnst_DbSet :: string
  cnst_AccountSet :: string
  cnst_ValidatorSet :: string
  cnst_DbGet :: string
  cnst_AccountPrefix :: string
  AccountSetChangePrefix :: string
  ValidatorSetChangePrefix :: string
  FromBytes :: "bytes \<Rightarrow> Transaction \<times> string option"
  CheckDb :: "Transaction \<Rightarrow> string option"
  DbSave :: "Transaction \<Rightarrow> VersionedTree \<Rightarrow> VersionedTree"
  ToAccount :: "Transaction \<Rightarrow> Account \<times> string option"
  ToValidator :: "Transaction \<Rightarrow> Validator \<times> string option"
  json_Unmarshal :: "bytes \<Rightarrow> string + Db"
  WriteMessage :: "Validator \<Rightarrow> string + bytes"
  ReadMessage :: "bytes \<Rightarrow> string + Validator"
  tree_Hash :: "(bytes \<times> bytes) list \<Rightarrow> bytes"

subsection \<open>Formatting\<close>

definition digit_char :: "nat \<Rightarrow> char" where
  "digit_char d = char_of (of_char CHR ''0'' + d :: nat)"

fun nat_dec :: "nat \<Rightarrow> string" where
  "nat_dec n = (if n < 10 then [digit_char n] else nat_dec (n div 10) @ [digit_char (n mod 10)])"

text \<open>\<^verbatim>\<open>strconv.Itoa\<close>.\<close>

definition Itoa :: "int \<Rightarrow> string" where
  "Itoa i = (if i < 0 then CHR ''-'' # nat_dec (nat (- i)) else nat_dec (nat i))"

definition hex_char :: "nat \<Rightarrow> char" where
  "hex_char d = (if d < 10 then digit_char d else char_of (of_char CHR ''A'' + (d - 10) :: nat))"

text \<open>The verb \<^verbatim>\<open>%X\<close> of \<^verbatim>\<open>fmt.Sprintf\<close> on a byte slice.\<close>

definition fmt_X :: "bytes \<Rightarrow> string" where
  "fmt_X b = concat (map (\<lambda>c. [hex_char (of_char c div 16), hex_char (of_char c mod 16)]) b)"

subsection \<open>The message codec\<close>

text \<open>
  Modelled from the spec: the canonical validator-record encoding, \<^verbatim>\<open>WriteMessage\<close> and
  \<^verbatim>\<open>ReadMessage\<close> of the library \<^verbatim>\<open>github.com/tendermint/abci/types\<close>, which is not
  among the sources. The record is written as a protocol-buffers message (field 1 the public
  key, field 2 the power, a field that holds the zero value left out) after the length of
  that message. Numbers are base-128 varints, the length a signed (zigzag) one, the power the
  64-bit two's complement of the \<^verbatim>\<open>int64\<close>. The decoder reads the fields 1 and 2 in any
  order and refuses any other; lengths are not bounded here. The environment still takes the
  codec as a parameter; the theorems that need the round trip ask for this one.
\<close>

fun uvarint :: "nat \<Rightarrow> bytes" where
  "uvarint n = (if n < 128 then [char_of n] else char_of (128 + n mod 128) # uvarint (n div 128))"

declare uvarint.simps [simp del]

fun read_uvarint :: "bytes \<Rightarrow> (nat \<times> bytes) option" where
  "read_uvarint [] = None"
| "read_uvarint (c # cs) =
     (if (of_char c :: nat) < 128 then Some (of_char c, cs)
      else (case read_uvarint cs of
              None \<Rightarrow> None
            | Some (m, rest) \<Rightarrow> Some (of_char c - 128 + 128 * m, rest)))"

text \<open>The conversion \<^verbatim>\<open>int64(x)\<close> of a \<^verbatim>\<open>uint64\<close>.\<close>

definition int64_of :: "nat \<Rightarrow> int" where
  "int64_of x =
     (if int x mod 2 ^ 64 < 2 ^ 63 then int x mod 2 ^ 64 else int x mod 2 ^ 64 - 2 ^ 64)"

definition proto_Marshal :: "Validator \<Rightarrow> bytes" where
  "proto_Marshal v =
     (if PubKey v = [] then [] else CHR 0x0A # uvarint (length (PubKey v)) @ PubKey v) @
     (if Power v = 0 then [] else CHR 0x10 # uvarint (nat (Power v mod 2 ^ 64)))"

function proto_fields :: "bytes \<Rightarrow> Validator \<Rightarrow> string + Validator" where
  "proto_fields [] v = Inr v"
| "proto_fields (c # cs) v =
     (case read_uvarint (c # cs) of
        None \<Rightarrow> Inl ''unexpected EOF''
      | Some (tag, rest) \<Rightarrow>
          (case read_uvarint rest of
             None \<Rightarrow> Inl ''unexpected EOF''
           | Some (n, rest') \<Rightarrow>
               if tag = 10 then
                 (if length rest' < n then Inl ''unexpected EOF''
                  else proto_fields (drop n rest') (v\<lparr>PubKey := take n rest'\<rparr>))
               else if tag = 16 then proto_fields rest' (v\<lparr>Power := int64_of n\<rparr>)
               else Inl ''unknown field''))"
  by pat_completeness auto
termination
proof (relation "measure (\<lambda>(b, v). length b)")
  have shorter: "length rest < length b" if "read_uvarint b = Some (n, rest)" for b n rest
    using that
  proof (induction b arbitrary: n rest)
    case Nil
    then show ?case by simp
  next
    case (Cons c cs)
    show ?case
    proof (cases "(of_char c :: nat) < 128")
      case True
      with Cons.prems show ?thesis by simp
    next
      case False
      with Cons.prems obtain m where "read_uvarint cs = Some (m, rest)"
        by (auto split: option.splits)
      from Cons.IH [OF this] show ?thesis by simp
    qed
  qed
  show "wf (measure (\<lambda>(b, v). length b))" by simp
  fix c cs v x2 tag rest x2a n rest'
  assume a: "read_uvarint (c # cs) = Some x2" "(tag, rest) = x2"
    "read_uvarint rest = Some x2a" "(n, rest') = x2a"
  from a have "length rest < length (c # cs)" and "length rest' < length rest"
    using shorter [of "c # cs" tag rest] shorter [of rest n rest'] by auto
  then have l: "length rest' < length (c # cs)" by simp
  {
    assume "tag = 10" "\<not> length rest' < n"
    from l show "((drop n rest', v\<lparr>PubKey := take n rest'\<rparr>), c # cs, v) \<in> measure (\<lambda>(b, v). length b)"
      by simp
  }
  {
    assume "tag \<noteq> 10" "tag = 16"
    from l show "((rest', v\<lparr>Power := int64_of n\<rparr>), c # cs, v) \<in> measure (\<lambda>(b, v). length b)"
      by simp
  }
qed

definition proto_Unmarshal :: "bytes \<Rightarrow> string + Validator" where
  "proto_Unmarshal buf = proto_fields buf \<lparr>PubKey = [], Power = 0\<rparr>"

definition lib_WriteMessage :: "Validator \<Rightarrow> string + bytes" where
  "lib_WriteMessage v = Inr (uvarint (2 * length (proto_Marshal v)) @ proto_Marshal v)"

definition lib_ReadMessage :: "bytes \<Rightarrow> string + Validator" where
  "lib_ReadMessage b =
     (case read_uvarint b of
        None \<Rightarrow> Inl ''EOF''
      | Some (ux, rest) \<Rightarrow>
          if odd ux then Inl ''short buffer''
          else if length rest < ux div 2 then Inl ''unexpected EOF''
          else proto_Unmarshal (take (ux div 2) rest))"

subsection \<open>The application\<close>

text \<open>
  A Go map that is \<^verbatim>\<open>nil\<close> is \<open>None\<close>: reading it gives the zero value, assigning to
  an entry of it panics. \<^verbatim>\<open>NewPersistentApplication\<close> leaves
  \<^verbatim>\<open>GenesisValidators\<close> \<^verbatim>\<open>nil\<close>.
\<close>

record PersistentApplication =
  state :: VersionedTree
  ValUpdates :: "Validator list"
  GenesisValidators :: "(string \<rightharpoonup> int) option"

definition NewPersistentApplication :: "VersionedTree \<Rightarrow> PersistentApplication" where
  "NewPersistentApplication stateTree =
     \<lparr>state = stateTree, ValUpdates = [], GenesisValidators = None\<rparr>"

text \<open>The map read \<^verbatim>\<open>app.GenesisValidators[k]\<close>: 0 for a key that is absent.\<close>

definition GenesisValidators_at :: "PersistentApplication \<Rightarrow> string \<Rightarrow> int" where
  "GenesisValidators_at app k =
     (case GenesisValidators app of
        None \<Rightarrow> 0
      | Some m \<Rightarrow> (case m k of None \<Rightarrow> 0 | Some p \<Rightarrow> p))"

definition log_no_account :: string where
  "log_no_account =
     [CHR 0xE8, CHR 0x8A, CHR 0x82, CHR 0xE7, CHR 0x82, CHR 0xB9, CHR 0xE8, CHR 0xB4, CHR 0xA6,
      CHR 0xE6, CHR 0x88, CHR 0xB7, CHR 0xE4, CHR 0xB8, CHR 0x8D, CHR 0xE5, CHR 0xAD, CHR 0x98,
      CHR 0xE5, CHR 0x9C, CHR 0xA8]"

definition log_bad_validator :: string where
  "log_bad_validator =
     [CHR 0xE9, CHR 0xAA, CHR 0x8C, CHR 0xE8, CHR 0xAF, CHR 0x81, CHR 0xE8, CHR 0x8A, CHR 0x82,
      CHR 0xE7, CHR 0x82, CHR 0xB9, CHR 0xE9, CHR 0x94, CHR 0x99, CHR 0xE8, CHR 0xAF, CHR 0xAF]"

text \<open>
  DeliverTx drops the error of \<^verbatim>\<open>FromBytes\<close> and switches on the type of whatever
  transaction it left. In the case \<^verbatim>\<open>cnst.DbSet\<close> the result of \<^verbatim>\<open>CheckDb\<close> is
  dropped too, so only \<^verbatim>\<open>DbSave\<close> shows. The errors of \<^verbatim>\<open>ToAccount\<close> and
  \<^verbatim>\<open>ToValidator\<close> are dropped and the values they return are used.
\<close>

definition DeliverTx :: "env \<Rightarrow> PersistentApplication \<Rightarrow> bytes \<Rightarrow> PersistentApplication \<times> Response" where
  "DeliverTx E app txBytes =
     (let tx1 = fst (FromBytes E txBytes) in
      if Type tx1 = cnst_DbSet E then
        (app\<lparr>state := DbSave E tx1 (state app)\<rparr>, \<lparr>Code = Ok, Log = []\<rparr>)
      else if Type tx1 = cnst_AccountSet E then
        (let account = fst (ToAccount E tx1) in
         (app\<lparr>state := tree_Set (cnst_AccountPrefix E @ acc_PubKey account)
                                 (Itoa (acc_Power account)) (state app)\<rparr>,
          \<lparr>Code = Ok, Log = []\<rparr>))
      else if Type tx1 = cnst_ValidatorSet E then
        (let val = fst (ToValidator E tx1);
             key = ValidatorSetChangePrefix E @ PubKey val in
         if Power val = 0 then
           (if \<not> tree_Has (state app) key then
              (app, \<lparr>Code = CodeTypeUnauthorized,
                     Log = ''Cannot remove non-existent validator '' @ fmt_X key\<rparr>)
            else
              (app\<lparr>state := tree_Remove key (state app),
                    ValUpdates := ValUpdates app @ [\<lparr>PubKey = PubKey val, Power = Power val\<rparr>]\<rparr>,
               \<lparr>Code = Ok, Log = []\<rparr>))
         else
           (case WriteMessage E \<lparr>PubKey = PubKey val, Power = Power val\<rparr> of
              Inl err \<Rightarrow>
                (app, \<lparr>Code = CodeTypeEncodingError, Log = ''Error encoding validator: '' @ err\<rparr>)
            | Inr value \<Rightarrow>
                (app\<lparr>state := tree_Set key value (state app),
                      ValUpdates := ValUpdates app @ [\<lparr>PubKey = PubKey val, Power = Power val\<rparr>]\<rparr>,
                 \<lparr>Code = Ok, Log = []\<rparr>)))
      else
        (app, \<lparr>Code = CodeTypeEncodingError, Log = ''unknown transaction type''\<rparr>))"

text \<open>
  CheckTx returns the application next to the response, so that what it changes can be
  stated. The two logs in Chinese are the byte strings above.
\<close>

definition CheckTx :: "env \<Rightarrow> PersistentApplication \<Rightarrow> bytes \<Rightarrow> PersistentApplication \<times> Response" where
  "CheckTx E app txBytes =
     (case FromBytes E txBytes of
        (tx1, Some err) \<Rightarrow> (app, \<lparr>Code = CodeTypeEncodingError, Log = err\<rparr>)
      | (tx1, None) \<Rightarrow>
          if Signature tx1 \<noteq> [] \<and>
             fst (tree_Get (state app) (AccountSetChangePrefix E @ SignPubKey tx1)) = 0 then
            (app, \<lparr>Code = CodeTypeEncodingError, Log = log_no_account\<rparr>)
          else if Type tx1 = cnst_DbSet E then
            (case CheckDb E tx1 of
               Some err \<Rightarrow> (app, \<lparr>Code = CodeTypeEncodingError, Log = err\<rparr>)
             | None \<Rightarrow> (app, \<lparr>Code = Ok, Log = []\<rparr>))
          else if Type tx1 = cnst_AccountSet E then
            (if GenesisValidators_at app (SignPubKey tx1) = 0 then
               (app, \<lparr>Code = CodeTypeEncodingError, Log = log_bad_validator\<rparr>)
             else
               (case snd (ToAccount E tx1) of
                  Some err \<Rightarrow> (app, \<lparr>Code = CodeTypeEncodingError, Log = err\<rparr>)
                | None \<Rightarrow> (app, \<lparr>Code = Ok, Log = []\<rparr>)))
          else if Type tx1 = cnst_ValidatorSet E then
            (if GenesisValidators_at app (SignPubKey tx1) = 0 then
               (app, \<lparr>Code = CodeTypeEncodingError, Log = log_bad_validator\<rparr>)
             else
               (case snd (ToValidator E tx1) of
                  Some err \<Rightarrow> (app, \<lparr>Code = CodeTypeEncodingError, Log = err\<rparr>)
                | None \<Rightarrow> (app, \<lparr>Code = Ok, Log = []\<rparr>)))
          else
            (app, \<lparr>Code = CodeTypeEncodingError, Log = ''unknown transaction type''\<rparr>))"

text \<open>
  Commit: the height is computed in \<^verbatim>\<open>uint64\<close>; an error of \<^verbatim>\<open>SaveVersion\<close> is a
  panic.
\<close>

definition Commit :: "env \<Rightarrow> PersistentApplication \<Rightarrow> panic + (PersistentApplication \<times> ResponseCommit)" where
  "Commit E app =
     (let height = latestVersion (state app) + 1 in
      case tree_SaveVersion (tree_Hash E) height (state app) of
        Inl err \<Rightarrow> Inl (Panic err)
      | Inr (appHash, t) \<Rightarrow> Inr (app\<lparr>state := t\<rparr>, \<lparr>commit_Code = Ok, commit_Data = appHash\<rparr>))"

text \<open>
  Query: the response starts as the zero value and the branches assign to its fields.
  A \<^verbatim>\<open>nil\<close> value is the empty byte slice of the response.
\<close>

definition Query :: "env \<Rightarrow> PersistentApplication \<Rightarrow> string \<Rightarrow> bytes \<Rightarrow> ResponseQuery" where
  "Query E app path data =
     (let resQuery = \<lparr>query_Code = Ok, query_Index = 0, query_Key = [], query_Value = [],
                      query_Log = []\<rparr> in
      if path = cnst_DbGet E then
        (case json_Unmarshal E data of
           Inl err \<Rightarrow> resQuery\<lparr>query_Code := CodeTypeBadNonce, query_Log := err\<rparr>
         | Inr db \<Rightarrow>
             (let (index, value) = tree_Get (state app) (Key db) in
              resQuery\<lparr>query_Index := index, query_Key := Key db,
                       query_Value := (case value of None \<Rightarrow> [] | Some v \<Rightarrow> v),
                       query_Log := (if value \<noteq> None then ''exists'' else ''does not exist'')\<rparr>))
      else resQuery\<lparr>query_Code := CodeTypeBadNonce, query_Log := ''wrong path''\<rparr>)"

text \<open>\<^verbatim>\<open>updateValidator\<close>: add, update or remove a validator; its key prefix is the literal.\<close>

definition updateValidator :: "env \<Rightarrow> PersistentApplication \<Rightarrow> Validator \<Rightarrow> PersistentApplication \<times> Response" where
  "updateValidator E app v =
     (let key = ''val:'' @ PubKey v in
      if Power v = 0 then
        (if \<not> tree_Has (state app) key then
           (app, \<lparr>Code = CodeTypeUnauthorized,
                  Log = ''Cannot remove non-existent validator '' @ fmt_X key\<rparr>)
         else
           (app\<lparr>state := tree_Remove key (state app), ValUpdates := ValUpdates app @ [v]\<rparr>,
            \<lparr>Code = Ok, Log = []\<rparr>))
      else
        (case WriteMessage E v of
           Inl err \<Rightarrow>
             (app, \<lparr>Code = CodeTypeEncodingError, Log = ''Error encoding validator: '' @ err\<rparr>)
         | Inr value \<Rightarrow>
             (app\<lparr>state := tree_Set key value (state app), ValUpdates := ValUpdates app @ [v]\<rparr>,
              \<lparr>Code = Ok, Log = []\<rparr>)))"

text \<open>
  InitChain: \<^verbatim>\<open>r.IsErr()\<close> is \<^verbatim>\<open>r.Code != CodeTypeOK\<close>. The assignment to the map
  panics when the map is \<^verbatim>\<open>nil\<close>.
\<close>

fun InitChain :: "env \<Rightarrow> PersistentApplication \<Rightarrow> Validator list \<Rightarrow> panic + PersistentApplication" where
  "InitChain E app [] = Inr app"
| "InitChain E app (v # vs) =
     (case updateValidator E app v of
        (app1, r) \<Rightarrow>
          if Code r \<noteq> Ok then InitChain E app1 vs
          else
            (case GenesisValidators app1 of
               None \<Rightarrow> Inl (Panic ''assignment to entry in nil map'')
             | Some m \<Rightarrow> InitChain E (app1\<lparr>GenesisValidators := Some (m(PubKey v \<mapsto> Power v))\<rparr>) vs))"

definition BeginBlock :: "PersistentApplication \<Rightarrow> PersistentApplication" where
  "BeginBlock app = app\<lparr>ValUpdates := [], GenesisValidators := Some Map.empty\<rparr>"

text \<open>EndBlock hands the pending validator updates over and changes nothing.\<close>

definition EndBlock :: "PersistentApplication \<Rightarrow> PersistentApplication \<times> Validator list" where
  "EndBlock app = (app, ValUpdates app)"

definition isValidatorTx :: "env \<Rightarrow> bytes \<Rightarrow> bool" where
  "isValidatorTx E tx = (take (length (ValidatorSetChangePrefix E)) tx = ValidatorSetChangePrefix E)"

text \<open>
  Validators: the callback of \<^verbatim>\<open>Iterate\<close> returns false, so every pair is visited, in
  key order; a value that does not decode is a panic.
\<close>

fun Validators_iter :: "env \<Rightarrow> (bytes \<times> bytes) list \<Rightarrow> Validator list \<Rightarrow> panic + Validator list" where
  "Validators_iter E [] validators = Inr validators"
| "Validators_iter E ((key, value) # kvs) validators =
     (if isValidatorTx E key then
        (case ReadMessage E value of
           Inl err \<Rightarrow> Inl (Panic err)
         | Inr validator \<Rightarrow> Validators_iter E kvs (validators @ [validator]))
      else Validators_iter E kvs validators)"

definition Validators :: "env \<Rightarrow> PersistentApplication \<Rightarrow> panic + Validator list" where
  "Validators E app = Validators_iter E (entries (state app)) []"

subsection \<open>A sample environment\<close>

text \<open>
  The theorems below hold for every environment. To run the model on concrete inputs, this
  environment fixes a simple textual codec: a transaction is \<^verbatim>\<open>type|signer|signature|body\<close>,
  the body of an account or validator transaction is \<^verbatim>\<open>pubkey/power\<close>, the body of a
  key/value write is \<^verbatim>\<open>key=value\<close>. The message codec is the one above.

  Modelled from the spec: \<^verbatim>\<open>DbSave\<close>, a method of \<^verbatim>\<open>Transaction\<close> that is not among
  the sources. \<open>sample_DbSave\<close> writes the value under the raw key, as the spec says of
  the key/value write.
\<close>

fun split_on :: "char \<Rightarrow> string \<Rightarrow> string list" where
  "split_on c [] = [[]]"
| "split_on c (x # xs) =
     (if x = c then [] # split_on c xs
      else (case split_on c xs of [] \<Rightarrow> [[x]] | w # ws \<Rightarrow> (x # w) # ws))"

definition sample_Atoi :: "string \<Rightarrow> int option" where
  "sample_Atoi s =
     (if s \<noteq> [] \<and> list_all (\<lambda>d. CHR ''0'' \<le> d \<and> d \<le> CHR ''9'') s
      then Some (foldl (\<lambda>a d. 10 * a + (int (of_char d) - 48)) 0 s) else None)"

definition sample_FromBytes :: "bytes \<Rightarrow> Transaction \<times> string option" where
  "sample_FromBytes b =
     (case split_on CHR ''|'' b of
        [t, k, s, d] \<Rightarrow> (\<lparr>Type = t, Signature = s, SignPubKey = k, Body = d\<rparr>, None)
      | _ \<Rightarrow> (\<lparr>Type = [], Signature = [], SignPubKey = [], Body = []\<rparr>,
              Some ''malformed transaction''))"

definition sample_CheckDb :: "Transaction \<Rightarrow> string option" where
  "sample_CheckDb tx =
     (case split_on CHR ''='' (Body tx) of [k, v] \<Rightarrow> None | _ \<Rightarrow> Some ''expected key=value'')"

definition sample_DbSave :: "Transaction \<Rightarrow> VersionedTree \<Rightarrow> VersionedTree" where
  "sample_DbSave tx t =
     (case split_on CHR ''='' (Body tx) of [k, v] \<Rightarrow> tree_Set k v t | _ \<Rightarrow> t)"

definition sample_ToAccount :: "Transaction \<Rightarrow> Account \<times> string option" where
  "sample_ToAccount tx =
     (case split_on CHR ''/'' (Body tx) of
        [pk, p] \<Rightarrow>
          (case sample_Atoi p of
             Some n \<Rightarrow> (\<lparr>acc_PubKey = pk, acc_Power = n\<rparr>, None)
           | None \<Rightarrow> (\<lparr>acc_PubKey = pk, acc_Power = 0\<rparr>, Some ''power is not an int''))
      | _ \<Rightarrow> (\<lparr>acc_PubKey = [], acc_Power = 0\<rparr>, Some ''expected pubkey/power''))"

definition sample_ToValidator :: "Transaction \<Rightarrow> Validator \<times> string option" where
  "sample_ToValidator tx =
     (case split_on CHR ''/'' (Body tx) of
        [pk, p] \<Rightarrow>
          (case sample_Atoi p of
             Some n \<Rightarrow> (\<lparr>PubKey = pk, Power = n\<rparr>, None)
           | None \<Rightarrow> (\<lparr>PubKey = pk, Power = 0\<rparr>, Some ''power is not an int''))
      | _ \<Rightarrow> (\<lparr>PubKey = [], Power = 0\<rparr>, Some ''expected pubkey/power''))"

definition sample_Unmarshal :: "bytes \<Rightarrow> string + Db" where
  "sample_Unmarshal data =
     (if data = [] then Inl ''unexpected end of JSON input'' else Inr \<lparr>Key = data\<rparr>)"

definition sample_Hash :: "(bytes \<times> bytes) list \<Rightarrow> bytes" where
  "sample_Hash es = concat (map (\<lambda>(k, v). k @ CHR ''='' # v @ [CHR '';'']) es)"

definition sample_env :: env where
  "sample_env =
     \<lparr>cnst_DbSet = ''db'', cnst_AccountSet = ''acc'', cnst_ValidatorSet = ''val'',
      cnst_DbGet = ''db_get'', cnst_AccountPrefix = ''account:'',
      AccountSetChangePrefix = ''account:'', ValidatorSetChangePrefix = ''val:'',
      FromBytes = sample_FromBytes, CheckDb = sample_CheckDb, DbSave = sample_DbSave,
      ToAccount = sample_ToAccount, ToValidator = sample_ToValidator,
      json_Unmarshal = sample_Unmarshal, WriteMessage = lib_WriteMessage,
      ReadMessage = lib_ReadMessage, tree_Hash = sample_Hash\<rparr>"

text \<open>
  Two sample applications: one with an empty tree and an allocated, empty
  \<^verbatim>\<open>GenesisValidators\<close>, and the one that \<open>InitChain\<close> makes of it for the single
  genesis validator \<^verbatim>\<open>V1\<close> of power 10. The three byte strings are the
  encodings of the records \<^verbatim>\<open>V1\<close> with power 10, \<^verbatim>\<open>V1\<close> with power 5 and
  \<^verbatim>\<open>V2\<close> with power 20.
\<close>

definition sample_app0 :: PersistentApplication where
  "sample_app0 =
     \<lparr>state = \<lparr>entries = [], latestVersion = 0, versions = []\<rparr>,
      ValUpdates = [], GenesisValidators = Some Map.empty\<rparr>"

definition sample_V1_10 :: bytes where
  "sample_V1_10 = [CHR 0x0C, CHR 0x0A, CHR 0x02, CHR ''V'', CHR ''1'', CHR 0x10, CHR 0x0A]"

definition sample_V1_5 :: bytes where
  "sample_V1_5 = [CHR 0x0C, CHR 0x0A, CHR 0x02, CHR ''V'', CHR ''1'', CHR 0x10, CHR 0x05]"

definition sample_V2_20 :: bytes where
  "sample_V2_20 = [CHR 0x0C, CHR 0x0A, CHR 0x02, CHR ''V'', CHR ''2'', CHR 0x10, CHR 0x14]"

definition sample_app1 :: PersistentApplication where
  "sample_app1 =
     \<lparr>state = \<lparr>entries = [(''val:V1'', sample_V1_10)], latestVersion = 0, versions = []\<rparr>,
      ValUpdates = [\<lparr>PubKey = ''V1'', Power = 10\<rparr>],
      GenesisValidators = Some [''V1'' \<mapsto> 10]\<rparr>"

subsection \<open>Well-formed validator entries\<close>

text \<open>
  The entries that DeliverTx and updateValidator write under the validator prefix hold the
  encoding of the record that the key names. This predicate says so of every entry of the
  tree under that prefix.
\<close>

definition validator_entries_ok :: "env \<Rightarrow> VersionedTree \<Rightarrow> bool" where
  "validator_entries_ok E t =
     list_all (\<lambda>(k, x). isValidatorTx E k \<longrightarrow>
                 (case ReadMessage E x of
                    Inl err \<Rightarrow> False
                  | Inr w \<Rightarrow> k = ValidatorSetChangePrefix E @ PubKey w))
              (entries t)"

section \<open>Properties\<close>

subsection \<open>The tree\<close>

lemma tree_Has_map_of: "tree_Has t k \<longleftrightarrow> map_of (entries t) k \<noteq> None"
  by (simp add: tree_Has_def map_of_eq_None_iff)

lemma map_of_insort_key:
  "k \<notin> fst ` set es \<Longrightarrow> map_of (insort_key fst (k, v) es) = (map_of es)(k \<mapsto> v)"
  by (induction es) (auto simp: fun_upd_twist)

lemma map_of_filter_neq: "map_of (filter (\<lambda>p. fst p \<noteq> k) es) = (map_of es)(k := None)"
  by (induction es) auto

lemma map_of_tree_Set:
  "map_of (entries (tree_Set k v t)) = (map_of (entries t))(k \<mapsto> v)"
proof -
  have "k \<notin> fst ` set (filter (\<lambda>p. fst p \<noteq> k) (entries t))" by auto
  then show ?thesis
    by (simp add: tree_Set_def map_of_insort_key map_of_filter_neq)
qed

lemma set_entries_tree_Set:
  "set (entries (tree_Set k v t)) = insert (k, v) {p \<in> set (entries t). fst p \<noteq> k}"
  by (auto simp: tree_Set_def set_insort_key)

lemma set_entries_tree_Remove:
  "set (entries (tree_Remove k t)) = {p \<in> set (entries t). fst p \<noteq> k}"
  by (auto simp: tree_Remove_def)

lemma tree_Has_Remove: "\<not> tree_Has (tree_Remove k t) k"
  by (auto simp: tree_Has_def set_entries_tree_Remove)

lemma tree_Has_Set: "tree_Has (tree_Set k v t) k"
  by (auto simp: tree_Has_def set_entries_tree_Set)

lemma isValidatorTx_prefix: "isValidatorTx E (ValidatorSetChangePrefix E @ pk)"
  by (simp add: isValidatorTx_def)

lemma Validators_iter_Inr_iff:
  "(\<exists>vs. Validators_iter E es acc = Inr vs) \<longleftrightarrow>
   (\<forall>(k, x) \<in> set es. isValidatorTx E k \<longrightarrow> (\<exists>w. ReadMessage E x = Inr w))"
proof (induction es arbitrary: acc)
  case Nil
  show ?case by simp
next
  case (Cons p es)
  obtain k x where p: "p = (k, x)" by (cases p)
  show ?case
  proof (cases "isValidatorTx E k")
    case False
    with Cons p show ?thesis by simp
  next
    case True
    show ?thesis
    proof (cases "ReadMessage E x")
      case (Inl err)
      with True p show ?thesis by auto
    next
      case (Inr w)
      with True p Cons [of "acc @ [w]"] show ?thesis by simp
    qed
  qed
qed

lemma Validators_iter_set:
  "Validators_iter E es acc = Inr vs \<Longrightarrow>
   set vs = set acc \<union> {w. \<exists>k x. (k, x) \<in> set es \<and> isValidatorTx E k \<and> ReadMessage E x = Inr w}"
proof (induction es arbitrary: acc)
  case Nil
  then show ?case by simp
next
  case (Cons p es)
  obtain k x where p: "p = (k, x)" by (cases p)
  show ?case
  proof (cases "isValidatorTx E k")
    case False
    with Cons.prems p have "Validators_iter E es acc = Inr vs" by simp
    from Cons.IH [OF this] False p show ?thesis by auto
  next
    case True
    show ?thesis
    proof (cases "ReadMessage E x")
      case (Inl err)
      with True p Cons.prems show ?thesis by simp
    next
      case (Inr w)
      with True p Cons.prems have "Validators_iter E es (acc @ [w]) = Inr vs" by simp
      from Cons.IH [OF this] True Inr p show ?thesis by auto
    qed
  qed
qed

subsection \<open>DeliverTx on a validator change\<close>

lemma Validator_eta: "\<lparr>PubKey = PubKey v, Power = Power v\<rparr> = (v :: Validator)"
  by (cases v) simp

lemma DeliverTx_ValidatorSet:
  assumes "Type (fst (FromBytes E txBytes)) = cnst_ValidatorSet E"
    and "Type (fst (FromBytes E txBytes)) \<noteq> cnst_DbSet E"
    and "Type (fst (FromBytes E txBytes)) \<noteq> cnst_AccountSet E"
    and "fst (ToValidator E (fst (FromBytes E txBytes))) = v"
  shows "DeliverTx E app txBytes =
     (if Power v = 0 then
        (if \<not> tree_Has (state app) (ValidatorSetChangePrefix E @ PubKey v) then
           (app, \<lparr>Code = CodeTypeUnauthorized,
                  Log = ''Cannot remove non-existent validator '' @
                        fmt_X (ValidatorSetChangePrefix E @ PubKey v)\<rparr>)
         else
           (app\<lparr>state := tree_Remove (ValidatorSetChangePrefix E @ PubKey v) (state app),
                 ValUpdates := ValUpdates app @ [v]\<rparr>,
            \<lparr>Code = Ok, Log = []\<rparr>))
      else
        (case WriteMessage E v of
           Inl err \<Rightarrow>
             (app, \<lparr>Code = CodeTypeEncodingError, Log = ''Error encoding validator: '' @ err\<rparr>)
         | Inr value \<Rightarrow>
             (app\<lparr>state := tree_Set (ValidatorSetChangePrefix E @ PubKey v) value (state app),
                   ValUpdates := ValUpdates app @ [v]\<rparr>,
              \<lparr>Code = Ok, Log = []\<rparr>)))"
  using assms by (simp add: DeliverTx_def Let_def Validator_eta split: sum.split)

subsection \<open>CheckTx\<close>

lemma fst_if: "fst (if c then x else y) = (if c then fst x else fst y)"
  by simp

lemma fst_case_option:
  "fst (case x of None \<Rightarrow> a | Some e \<Rightarrow> b e) = (case x of None \<Rightarrow> fst a | Some e \<Rightarrow> fst (b e))"
  by (cases x) simp_all

lemma CheckTx_fst: "fst (CheckTx E app txBytes) = app"
proof (cases "FromBytes E txBytes")
  case (Pair tx1 err)
  show ?thesis
  proof (cases err)
    case (Some e)
    with Pair show ?thesis by (simp add: CheckTx_def)
  next
    case None
    with Pair show ?thesis
      by (simp add: CheckTx_def fst_if fst_case_option split: option.split)
  qed
qed

text \<open>
  Claim C1. For every payload, malformed ones included, CheckTx returns the application as
  it was: the StateStore, the pending validator updates (and the genesis set) are unchanged,
  and so is what a following Commit does and returns.
\<close>

theorem CheckTx_reads_only:
  "fst (CheckTx E app txBytes) = app \<and>
   state (fst (CheckTx E app txBytes)) = state app \<and>
   ValUpdates (fst (CheckTx E app txBytes)) = ValUpdates app \<and>
   Commit E (fst (CheckTx E app txBytes)) = Commit E app"
  by (simp add: CheckTx_fst)

text \<open>
  A payload that the sample decoder refuses.
\<close>

theorem CheckTx_reads_only_witness:
  "snd (FromBytes sample_env ''garbage'') = Some ''malformed transaction'' \<and>
   fst (CheckTx sample_env sample_app1 ''garbage'') = sample_app1 \<and>
   Commit sample_env (fst (CheckTx sample_env sample_app1 ''garbage'')) =
     Commit sample_env sample_app1"
proof -
  have "snd (FromBytes sample_env ''garbage'') = Some ''malformed transaction''"
    by code_simp
  with CheckTx_reads_only [of sample_env sample_app1 "''garbage''"] show ?thesis
    by simp
qed

subsection \<open>Enumeration of validators\<close>

lemma all_entries_tree_Set:
  assumes "\<forall>(k, x) \<in> set (entries t). P k x" and "P key value"
  shows "\<forall>(k, x) \<in> set (entries (tree_Set key value t)). P k x"
  using assms by (auto simp: set_entries_tree_Set)

lemma all_entries_tree_Remove:
  assumes "\<forall>(k, x) \<in> set (entries t). P k x"
  shows "\<forall>(k, x) \<in> set (entries (tree_Remove key t)). P k x"
  using assms by (auto simp: set_entries_tree_Remove)

lemma Validators_Inr_iff:
  "(\<exists>vs. Validators E app = Inr vs) \<longleftrightarrow>
   (\<forall>(k, x) \<in> set (entries (state app)). isValidatorTx E k \<longrightarrow> (\<exists>w. ReadMessage E x = Inr w))"
  unfolding Validators_def by (rule Validators_iter_Inr_iff)

lemma Validators_set:
  "Validators E app = Inr vs \<Longrightarrow>
   set vs = {w. \<exists>k x. (k, x) \<in> set (entries (state app)) \<and> isValidatorTx E k \<and>
                       ReadMessage E x = Inr w}"
  unfolding Validators_def using Validators_iter_set [of E "entries (state app)" "[]" vs] by simp

lemma validator_entries_okD:
  assumes "validator_entries_ok E t" and "(k, x) \<in> set (entries t)" and "isValidatorTx E k"
  shows "\<exists>w. ReadMessage E x = Inr w \<and> k = ValidatorSetChangePrefix E @ PubKey w"
proof -
  from assms(1,2) have "isValidatorTx E k \<longrightarrow>
      (case ReadMessage E x of Inl err \<Rightarrow> False
       | Inr w \<Rightarrow> k = ValidatorSetChangePrefix E @ PubKey w)"
    by (auto simp: validator_entries_ok_def list_all_iff)
  with assms(3) show ?thesis by (cases "ReadMessage E x") simp_all
qed

subsection \<open>Commit\<close>

lemma word_succ_unat: "(x :: 64 word) + 1 \<noteq> 0 \<Longrightarrow> unat (x + 1) = unat x + 1"
  using unatSuc [of x] by (simp add: add.commute)

text \<open>
  Claim C2. Commit asks SaveVersion for the latest version plus 1. When SaveVersion fails,
  Commit panics with its error. When it succeeds, Commit returns OK with the root hash of
  the saved tree, and the latest version of the tree is the one before plus exactly 1 (as
  numbers: the successor did not wrap around); the contents are untouched.
\<close>

theorem Commit_advances:
  "(tree_SaveVersion (tree_Hash E) (latestVersion (state app) + 1) (state app) = Inl err \<longrightarrow>
      Commit E app = Inl (Panic err)) \<and>
   (tree_SaveVersion (tree_Hash E) (latestVersion (state app) + 1) (state app) = Inr (h, t) \<longrightarrow>
      Commit E app = Inr (app\<lparr>state := t\<rparr>, \<lparr>commit_Code = Ok, commit_Data = h\<rparr>) \<and>
      unat (latestVersion t) = unat (latestVersion (state app)) + 1 \<and>
      entries t = entries (state app) \<and> h = tree_Hash E (entries t))"
proof (intro conjI impI)
  assume "tree_SaveVersion (tree_Hash E) (latestVersion (state app) + 1) (state app) = Inl err"
  then show "Commit E app = Inl (Panic err)" by (simp add: Commit_def)
next
  assume ok: "tree_SaveVersion (tree_Hash E) (latestVersion (state app) + 1) (state app) = Inr (h, t)"
  then show "Commit E app = Inr (app\<lparr>state := t\<rparr>, \<lparr>commit_Code = Ok, commit_Data = h\<rparr>)"
    by (simp add: Commit_def)
  from ok have nz: "latestVersion (state app) + 1 \<noteq> 0"
    and t: "t = (state app)\<lparr>latestVersion := latestVersion (state app) + 1,
                versions := (latestVersion (state app) + 1) # versions (state app)\<rparr>"
    and h: "h = tree_Hash E (entries (state app))"
    by (auto simp: tree_SaveVersion_def split: if_splits)
  from nz t show "unat (latestVersion t) = unat (latestVersion (state app)) + 1"
    by (simp add: word_succ_unat)
  from t show "entries t = entries (state app)" by simp
  from t h show "h = tree_Hash E (entries t)" by simp
qed

text \<open>
  On the empty sample tree Commit panics; on the tree with one validator it moves from
  version 0 to version 1.
\<close>

theorem Commit_advances_witness:
  "Commit sample_env sample_app0 = Inl (Panic ''tree root is nil'') \<and>
   Commit sample_env sample_app1 =
     Inr (sample_app1\<lparr>state := \<lparr>entries = [(''val:V1'', sample_V1_10)], latestVersion = 1, versions = [1]\<rparr>\<rparr>,
          \<lparr>commit_Code = Ok, commit_Data = (''val:V1='' @ sample_V1_10 @ '';'')\<rparr>) \<and>
   unat (latestVersion \<lparr>entries = [(''val:V1'', sample_V1_10)], latestVersion = 1, versions = [1 :: 64 word]\<rparr>) =
     unat (latestVersion (state sample_app1)) + 1"
proof -
  have a: "tree_SaveVersion (tree_Hash sample_env) (latestVersion (state sample_app0) + 1) (state sample_app0)
             = Inl ''tree root is nil''"
    by code_simp
  have b: "tree_SaveVersion (tree_Hash sample_env) (latestVersion (state sample_app1) + 1) (state sample_app1)
             = Inr ((''val:V1='' @ sample_V1_10 @ '';''), \<lparr>entries = [(''val:V1'', sample_V1_10)], latestVersion = 1, versions = [1]\<rparr>)"
    by code_simp
  from a b Commit_advances [of sample_env sample_app0 "''tree root is nil''"]
    Commit_advances [of sample_env sample_app1 _ "''val:V1='' @ sample_V1_10 @ '';''"
      "\<lparr>entries = [(''val:V1'', sample_V1_10)], latestVersion = 1, versions = [1]\<rparr>"]
  show ?thesis by blast
qed

subsection \<open>Query\<close>

text \<open>
  Claim C8. A Query with the path DbGet whose request decodes to a key that the tree does not
  hold returns the code OK, the log "does not exist", an empty value and the queried key.
\<close>

theorem Query_absent_key:
  assumes "json_Unmarshal E data = Inr db" and "\<not> tree_Has (state app) (Key db)"
  shows "Query E app (cnst_DbGet E) data =
           \<lparr>query_Code = Ok, query_Index = fst (tree_Get (state app) (Key db)),
            query_Key = Key db, query_Value = [], query_Log = ''does not exist''\<rparr>"
  using assms by (simp add: Query_def Let_def tree_Has_map_of tree_Get_def)

text \<open>
  The key \<^verbatim>\<open>nokey\<close> is not in the sample tree.
\<close>

theorem Query_absent_key_witness:
  "Query sample_env sample_app1 (cnst_DbGet sample_env) ''nokey'' =
     \<lparr>query_Code = Ok, query_Index = 0, query_Key = ''nokey'', query_Value = [],
      query_Log = ''does not exist''\<rparr>"
proof -
  have a: "json_Unmarshal sample_env ''nokey'' = Inr \<lparr>Key = ''nokey''\<rparr>" by code_simp
  have b: "\<not> tree_Has (state sample_app1) (Key \<lparr>Key = ''nokey''\<rparr>)" by code_simp
  have c: "fst (tree_Get (state sample_app1) (Key \<lparr>Key = ''nokey''\<rparr>)) = 0" by code_simp
  from Query_absent_key [OF a b] c show ?thesis by simp
qed

subsection \<open>DeliverTx on an account registration\<close>

text \<open>
  Claim C10. For a payload whose type is AccountSet, DeliverTx takes the account that
  ToAccount returns, whatever error comes with it, writes the decimal power under the account
  prefix followed by the public key, and returns OK, never EncodingError.
\<close>

theorem DeliverTx_AccountSet_unconditional:
  assumes "Type (fst (FromBytes E txBytes)) = cnst_AccountSet E"
    and "Type (fst (FromBytes E txBytes)) \<noteq> cnst_DbSet E"
    and "fst (ToAccount E (fst (FromBytes E txBytes))) = account"
  shows "DeliverTx E app txBytes =
           (app\<lparr>state := tree_Set (cnst_AccountPrefix E @ acc_PubKey account)
                                   (Itoa (acc_Power account)) (state app)\<rparr>,
            \<lparr>Code = Ok, Log = []\<rparr>) \<and>
         snd (tree_Get (state (fst (DeliverTx E app txBytes)))
                (cnst_AccountPrefix E @ acc_PubKey account)) = Some (Itoa (acc_Power account)) \<and>
         Code (snd (DeliverTx E app txBytes)) \<noteq> CodeTypeEncodingError"
  using assms by (simp add: DeliverTx_def Let_def tree_Get_def map_of_tree_Set)

text \<open>
  A payload whose power is not a number: ToAccount reports an error, CheckTx rejects the
  payload with EncodingError, and DeliverTx writes the account with power 0 and returns OK.
\<close>

theorem DeliverTx_AccountSet_unconditional_witness:
  "snd (ToAccount sample_env (fst (FromBytes sample_env ''acc|V1||V9/x''))) = Some ''power is not an int'' \<and>
   snd (CheckTx sample_env sample_app1 ''acc|V1||V9/x'') =
     \<lparr>Code = CodeTypeEncodingError, Log = ''power is not an int''\<rparr> \<and>
   DeliverTx sample_env sample_app1 ''acc|V1||V9/x'' =
     (sample_app1\<lparr>state := tree_Set ''account:V9'' ''0'' (state sample_app1)\<rparr>,
      \<lparr>Code = Ok, Log = []\<rparr>) \<and>
   snd (tree_Get (state (fst (DeliverTx sample_env sample_app1 ''acc|V1||V9/x''))) ''account:V9'') = Some ''0''"
proof -
  have a: "Type (fst (FromBytes sample_env ''acc|V1||V9/x'')) = cnst_AccountSet sample_env"
    by code_simp
  have b: "Type (fst (FromBytes sample_env ''acc|V1||V9/x'')) \<noteq> cnst_DbSet sample_env"
    by code_simp
  have c: "fst (ToAccount sample_env (fst (FromBytes sample_env ''acc|V1||V9/x''))) =
             \<lparr>acc_PubKey = ''V9'', acc_Power = 0\<rparr>"
    by code_simp
  have d: "snd (ToAccount sample_env (fst (FromBytes sample_env ''acc|V1||V9/x''))) = Some ''power is not an int''"
    by code_simp
  have e: "snd (CheckTx sample_env sample_app1 ''acc|V1||V9/x'') =
     \<lparr>Code = CodeTypeEncodingError, Log = ''power is not an int''\<rparr>"
    by code_simp
  have f: "cnst_AccountPrefix sample_env = ''account:''" by code_simp
  have g: "Itoa 0 = ''0''" by code_simp
  from DeliverTx_AccountSet_unconditional [OF a b c, of sample_app1] d e f g
  show ?thesis by (simp add: tree_Get_def map_of_tree_Set)
qed


subsection \<open>Reading the genesis validators\<close>

text \<open>A signer that the map does not hold has power 0 in it.\<close>

lemma GenesisValidators_at_absent:
  "(case GenesisValidators app of None \<Rightarrow> True | Some m \<Rightarrow> m k = None) \<Longrightarrow>
   GenesisValidators_at app k = 0"
  by (simp add: GenesisValidators_at_def split: option.splits)

subsection \<open>BeginBlock and the genesis validators\<close>

text \<open>
  Claim C4 says that the entries InitChain registers persist across blocks. InitChain
  registers \<^verbatim>\<open>V1\<close> with power 10, and CheckTx accepts an account registration signed by
  \<^verbatim>\<open>V1\<close>. BeginBlock replaces the map by an empty one: \<^verbatim>\<open>V1\<close> is gone and CheckTx
  rejects the same registration.
\<close>

theorem BeginBlock_clears_GenesisValidators:
  "InitChain sample_env sample_app0 [\<lparr>PubKey = ''V1'', Power = 10\<rparr>] = Inr sample_app1 \<and>
   GenesisValidators_at sample_app1 ''V1'' = 10 \<and>
   Code (snd (CheckTx sample_env sample_app1 ''acc|V1||V9/5'')) = Ok \<and>
   GenesisValidators (BeginBlock sample_app1) = Some Map.empty \<and>
   GenesisValidators_at (BeginBlock sample_app1) ''V1'' = 0 \<and>
   Code (snd (CheckTx sample_env (BeginBlock sample_app1) ''acc|V1||V9/5'')) = CodeTypeEncodingError"
proof -
  have "InitChain sample_env sample_app0 [\<lparr>PubKey = ''V1'', Power = 10\<rparr>] = Inr sample_app1"
  proof -
    have w: "WriteMessage sample_env \<lparr>PubKey = ''V1'', Power = 10\<rparr> = Inr sample_V1_10"
      by code_simp
    show ?thesis
      by (simp add: w sample_app0_def sample_app1_def updateValidator_def tree_Set_def tree_Has_def)
  qed
  moreover have "GenesisValidators_at sample_app1 ''V1'' = 10"
    by code_simp
  moreover have "Code (snd (CheckTx sample_env sample_app1 ''acc|V1||V9/5'')) = Ok"
    by code_simp
  moreover have "GenesisValidators (BeginBlock sample_app1) = Some Map.empty"
    by (simp add: BeginBlock_def)
  moreover have "GenesisValidators_at (BeginBlock sample_app1) ''V1'' = 0"
    by (simp add: BeginBlock_def GenesisValidators_at_def)
  moreover have "Code (snd (CheckTx sample_env (BeginBlock sample_app1) ''acc|V1||V9/5'')) = CodeTypeEncodingError"
    by code_simp
  ultimately show ?thesis by blast
qed

text \<open>
  After any BeginBlock no signer has power in the map; and on an application as
  \<^verbatim>\<open>NewPersistentApplication\<close> makes it, the first validator that InitChain adds
  successfully makes it panic, since the map is \<^verbatim>\<open>nil\<close>.
\<close>

lemma BeginBlock_forgets_genesis: "GenesisValidators_at (BeginBlock app) k = 0"
  by (simp add: BeginBlock_def GenesisValidators_at_def)

lemma InitChain_nil_map_panics:
  "Code (snd (updateValidator E (NewPersistentApplication t) v)) = Ok \<Longrightarrow>
   InitChain E (NewPersistentApplication t) (v # vs) = Inl (Panic ''assignment to entry in nil map'')"
  by (auto simp: updateValidator_def NewPersistentApplication_def Let_def
      split: prod.splits sum.splits if_splits)


subsection \<open>The message codec reads back what it wrote\<close>

text \<open>
  For a power in the range of \<^verbatim>\<open>int64\<close> the decoder of the library's codec returns the
  record that the encoder wrote.
\<close>

lemma read_uvarint_uvarint: "read_uvarint (uvarint n @ rest) = Some (n, rest)"
proof (induction n rule: uvarint.induct)
  case (1 n)
  show ?case
  proof (cases "n < 128")
    case True
    then show ?thesis by (subst uvarint.simps) simp
  next
    case False
    have m: "(128 + n mod 128) mod 256 = 128 + n mod 128" by simp
    from False 1 have "read_uvarint (uvarint (n div 128) @ rest) = Some (n div 128, rest)"
      by simp
    with False show ?thesis
      by (subst uvarint.simps) (simp add: m)
  qed
qed

lemma int64_of_roundtrip:
  assumes "- (2 ^ 63) \<le> p" and "p < 2 ^ 63"
  shows "int64_of (nat (p mod 2 ^ 64)) = p"
proof -
  have nn: "0 \<le> p mod 2 ^ 64" by simp
  have idem: "int (nat (p mod 2 ^ 64)) mod 2 ^ 64 = p mod 2 ^ 64"
    using nn by simp
  show ?thesis
  proof (cases "0 \<le> p")
    case True
    with assms have "p mod 2 ^ 64 = p" by simp
    with True assms idem show ?thesis by (simp add: int64_of_def)
  next
    case False
    with assms have "p mod 2 ^ 64 = p + 2 ^ 64"
      using mod_add_self2 [of p "2 ^ 64"] mod_pos_pos_trivial [of "p + 2 ^ 64" "2 ^ 64"] by simp
    with False assms idem show ?thesis by (simp add: int64_of_def)
  qed
qed

lemma proto_Unmarshal_Marshal:
  assumes "- (2 ^ 63) \<le> Power v" and "Power v < 2 ^ 63"
  shows "proto_Unmarshal (proto_Marshal v) = Inr v"
proof -
  let ?pw = "CHR 0x10 # uvarint (nat (Power v mod 2 ^ 64))"
  have tag10: "read_uvarint (CHR 0x0A # bs) = Some (10, bs)" for bs by simp
  have tag16: "read_uvarint (CHR 0x10 # bs) = Some (16, bs)" for bs by simp
  have power: "proto_fields (if Power v = 0 then [] else ?pw) w = Inr (w\<lparr>Power := Power v\<rparr>)"
    if "Power w = 0" for w :: Validator
  proof (cases "Power v = 0")
    case True
    with that show ?thesis by simp
  next
    case False
    have "proto_fields ?pw w = proto_fields [] (w\<lparr>Power := int64_of (nat (Power v mod 2 ^ 64))\<rparr>)"
      using read_uvarint_uvarint [of "nat (Power v mod 2 ^ 64)" "[]"]
      by (simp del: read_uvarint.simps add: tag16)
    also have "\<dots> = Inr (w\<lparr>Power := Power v\<rparr>)"
      unfolding int64_of_roundtrip [OF assms] by simp
    finally show ?thesis using False by simp
  qed
  show ?thesis
  proof (cases "PubKey v = []")
    case True
    with power [of "\<lparr>PubKey = [], Power = 0\<rparr>"] show ?thesis
      by (simp add: proto_Unmarshal_def proto_Marshal_def)
  next
    case False
    let ?rest = "if Power v = 0 then [] else ?pw"
    have "proto_fields (CHR 0x0A # uvarint (length (PubKey v)) @ PubKey v @ ?rest) \<lparr>PubKey = [], Power = 0\<rparr>
          = proto_fields ?rest \<lparr>PubKey = PubKey v, Power = 0\<rparr>"
      using read_uvarint_uvarint [of "length (PubKey v)" "PubKey v @ ?rest"]
      by (simp del: read_uvarint.simps add: tag10)
    also have "\<dots> = Inr v" using power [of "\<lparr>PubKey = PubKey v, Power = 0\<rparr>"] by simp
    finally show ?thesis using False
      by (simp add: proto_Unmarshal_def proto_Marshal_def)
  qed
qed

lemma lib_ReadMessage_WriteMessage:
  assumes "- (2 ^ 63) \<le> Power v" and "Power v < 2 ^ 63" and "lib_WriteMessage v = Inr value"
  shows "lib_ReadMessage value = Inr v"
proof -
  from assms(3) have v: "value = uvarint (2 * length (proto_Marshal v)) @ proto_Marshal v"
    by (simp add: lib_WriteMessage_def)
  show ?thesis
    unfolding v lib_ReadMessage_def read_uvarint_uvarint
    by (simp add: proto_Unmarshal_Marshal [OF assms(1,2)])
qed

subsection \<open>Adding a validator\<close>

text \<open>
  For any codec: when the decoder reads back what the encoder wrote for this record and the
  enumeration returned before the transaction, it returns after it and contains the record.
\<close>

lemma DeliverTx_add_enumerated:
  assumes tx: "Type (fst (FromBytes E txBytes)) = cnst_ValidatorSet E"
      "Type (fst (FromBytes E txBytes)) \<noteq> cnst_DbSet E"
      "Type (fst (FromBytes E txBytes)) \<noteq> cnst_AccountSet E"
      "fst (ToValidator E (fst (FromBytes E txBytes))) = v"
    and power: "Power v \<noteq> 0"
    and enc: "WriteMessage E v = Inr value"
    and dec: "ReadMessage E value = Inr v"
    and before: "Validators E app = Inr vs0"
  shows "Code (snd (DeliverTx E app txBytes)) = Ok \<and>
         snd (tree_Get (state (fst (DeliverTx E app txBytes)))
                (ValidatorSetChangePrefix E @ PubKey v)) = Some value \<and>
         (\<exists>vs. Validators E (fst (DeliverTx E app txBytes)) = Inr vs \<and> v \<in> set vs)"
proof -
  let ?key = "ValidatorSetChangePrefix E @ PubKey v"
  let ?t = "tree_Set ?key value (state app)"
  let ?app = "app\<lparr>state := ?t, ValUpdates := ValUpdates app @ [v]\<rparr>"
  from power enc have D: "DeliverTx E app txBytes = (?app, \<lparr>Code = Ok, Log = []\<rparr>)"
    by (simp add: DeliverTx_ValidatorSet [OF tx])
  have st: "state ?app = ?t" by simp
  from before have old: "\<forall>(k, x) \<in> set (entries (state app)).
      isValidatorTx E k \<longrightarrow> (\<exists>w. ReadMessage E x = Inr w)"
    using Validators_Inr_iff [of E app] by blast
  have new: "isValidatorTx E ?key \<longrightarrow> (\<exists>w. ReadMessage E value = Inr w)"
    using dec by simp
  have "\<forall>(k, x) \<in> set (entries ?t).
      isValidatorTx E k \<longrightarrow> (\<exists>w. ReadMessage E x = Inr w)"
    using old new by (rule all_entries_tree_Set)
  then obtain vs where vs: "Validators E ?app = Inr vs"
    using Validators_Inr_iff [of E ?app] unfolding st by blast
  have mem: "(?key, value) \<in> set (entries (state ?app))"
    unfolding st by (simp add: set_entries_tree_Set)
  have "v \<in> {w. \<exists>k x. (k, x) \<in> set (entries (state ?app)) \<and> isValidatorTx E k \<and>
                       ReadMessage E x = Inr w}"
    using mem dec isValidatorTx_prefix [of E "PubKey v"] by blast
  then have in_vs: "v \<in> set vs"
    unfolding Validators_set [OF vs] .
  have get: "snd (tree_Get ?t ?key) = Some value"
    by (simp add: tree_Get_def map_of_tree_Set)
  have "\<exists>vs. Validators E ?app = Inr vs \<and> v \<in> set vs"
    using vs in_vs by blast
  with get show ?thesis
    unfolding D fst_conv snd_conv st by simp
qed

text \<open>
  Claim C5 says that after a ValidatorChange of power above 0 that DeliverTx applied, an
  enumeration of the validators includes the record. Here a key/value write, which CheckTx
  and DeliverTx accept, has put a value that is no record under a key with the validator
  prefix. The validator change for \<^verbatim>\<open>V2\<close> with power 20 that follows returns OK, and the
  enumeration panics instead of returning a list.
\<close>

theorem DeliverTx_validator_enumerated_counterexample:
  "Code (snd (CheckTx sample_env sample_app1 ''db|||val:ZZ=junk'')) = Ok \<and>
   Code (snd (DeliverTx sample_env sample_app1 ''db|||val:ZZ=junk'')) = Ok \<and>
   Type (fst (FromBytes sample_env ''val|V1||V2/20'')) = cnst_ValidatorSet sample_env \<and>
   fst (ToValidator sample_env (fst (FromBytes sample_env ''val|V1||V2/20''))) =
     \<lparr>PubKey = ''V2'', Power = 20\<rparr> \<and>
   Code (snd (DeliverTx sample_env (fst (DeliverTx sample_env sample_app1 ''db|||val:ZZ=junk''))
                ''val|V1||V2/20'')) = Ok \<and>
   Validators sample_env
     (fst (DeliverTx sample_env (fst (DeliverTx sample_env sample_app1 ''db|||val:ZZ=junk''))
             ''val|V1||V2/20'')) = Inl (Panic ''unexpected EOF'')"
  by code_simp

text \<open>
  Claim C5, amended. With the library's codec, when DeliverTx receives a ValidatorChange of
  a power above 0 (and in the range of \<^verbatim>\<open>int64\<close>) on a tree whose enumeration returns, that
  is, on which every value under the validator prefix decodes, then the response is OK, the
  encoding of the record is stored under the validator prefix followed by the public key, the
  decoder reads that encoding back as the record, and the enumeration after the transaction
  returns and contains the record with that public key and that power.
\<close>

theorem DeliverTx_validator_enumerated:
  assumes codec: "WriteMessage E = lib_WriteMessage" "ReadMessage E = lib_ReadMessage"
    and tx: "Type (fst (FromBytes E txBytes)) = cnst_ValidatorSet E"
      "Type (fst (FromBytes E txBytes)) \<noteq> cnst_DbSet E"
      "Type (fst (FromBytes E txBytes)) \<noteq> cnst_AccountSet E"
      "fst (ToValidator E (fst (FromBytes E txBytes))) = v"
    and power: "0 < Power v" "Power v < 2 ^ 63"
    and before: "Validators E app = Inr vs0"
  shows "Code (snd (DeliverTx E app txBytes)) = Ok \<and>
         (\<exists>value. WriteMessage E \<lparr>PubKey = PubKey v, Power = Power v\<rparr> = Inr value \<and>
            snd (tree_Get (state (fst (DeliverTx E app txBytes)))
                   (ValidatorSetChangePrefix E @ PubKey v)) = Some value \<and>
            ReadMessage E value = Inr \<lparr>PubKey = PubKey v, Power = Power v\<rparr>) \<and>
         (\<exists>vs. Validators E (fst (DeliverTx E app txBytes)) = Inr vs \<and>
               \<lparr>PubKey = PubKey v, Power = Power v\<rparr> \<in> set vs)"
proof -
  obtain bz where enc: "WriteMessage E v = Inr bz"
    by (simp add: codec lib_WriteMessage_def)
  from power have range: "- (2 ^ 63) \<le> Power v" "Power v < 2 ^ 63" by simp_all
  from enc have dec: "ReadMessage E bz = Inr v"
    unfolding codec by (rule lib_ReadMessage_WriteMessage [OF range])
  from power have nz: "Power v \<noteq> 0" by simp
  from DeliverTx_add_enumerated [OF tx nz enc dec before] enc dec
  show ?thesis unfolding Validator_eta by blast
qed

text \<open>
  Adding \<^verbatim>\<open>V2\<close> with power 20 to the sample application, whose enumeration returns
  \<^verbatim>\<open>V1\<close>.
\<close>

theorem DeliverTx_validator_enumerated_witness:
  "Validators sample_env sample_app1 = Inr [\<lparr>PubKey = ''V1'', Power = 10\<rparr>] \<and>
   Code (snd (DeliverTx sample_env sample_app1 ''val|V1||V2/20'')) = Ok \<and>
   snd (tree_Get (state (fst (DeliverTx sample_env sample_app1 ''val|V1||V2/20''))) ''val:V2'') =
     Some sample_V2_20 \<and>
   ReadMessage sample_env sample_V2_20 = Inr \<lparr>PubKey = ''V2'', Power = 20\<rparr> \<and>
   (\<exists>vs. Validators sample_env (fst (DeliverTx sample_env sample_app1 ''val|V1||V2/20'')) = Inr vs \<and>
         \<lparr>PubKey = ''V2'', Power = 20\<rparr> \<in> set vs)"
proof -
  have c1: "WriteMessage sample_env = lib_WriteMessage" by (simp add: sample_env_def)
  have c2: "ReadMessage sample_env = lib_ReadMessage" by (simp add: sample_env_def)
  have a: "Type (fst (FromBytes sample_env ''val|V1||V2/20'')) = cnst_ValidatorSet sample_env"
    by code_simp
  have b: "Type (fst (FromBytes sample_env ''val|V1||V2/20'')) \<noteq> cnst_DbSet sample_env"
    by code_simp
  have c: "Type (fst (FromBytes sample_env ''val|V1||V2/20'')) \<noteq> cnst_AccountSet sample_env"
    by code_simp
  have d: "fst (ToValidator sample_env (fst (FromBytes sample_env ''val|V1||V2/20''))) =
             \<lparr>PubKey = ''V2'', Power = 20\<rparr>"
    by code_simp
  have e: "0 < Power \<lparr>PubKey = ''V2'', Power = 20\<rparr>" "Power \<lparr>PubKey = ''V2'', Power = 20\<rparr> < 2 ^ 63"
    by simp_all
  have h: "Validators sample_env sample_app1 = Inr [\<lparr>PubKey = ''V1'', Power = 10\<rparr>]"
    by code_simp
  have p: "ValidatorSetChangePrefix sample_env = ''val:''"
    by code_simp
  have w: "WriteMessage sample_env \<lparr>PubKey = ''V2'', Power = 20\<rparr> = Inr sample_V2_20"
    by code_simp
  from DeliverTx_validator_enumerated [OF c1 c2 a b c d e h] h p w show ?thesis by simp
qed


subsection \<open>Removing a validator\<close>

text \<open>
  Removing a key keeps the validator entries well formed; so does writing, under a key with
  the validator prefix, the encoding of the record that the key names.
\<close>

lemma validator_entries_okI:
  assumes "\<forall>(k, x) \<in> set (entries t). isValidatorTx E k \<longrightarrow>
             (case ReadMessage E x of Inl err \<Rightarrow> False
              | Inr w \<Rightarrow> k = ValidatorSetChangePrefix E @ PubKey w)"
  shows "validator_entries_ok E t"
  using assms by (simp add: validator_entries_ok_def list_all_iff)

lemma validator_entries_ok_all:
  assumes "validator_entries_ok E t"
  shows "\<forall>(k, x) \<in> set (entries t). isValidatorTx E k \<longrightarrow>
             (case ReadMessage E x of Inl err \<Rightarrow> False
              | Inr w \<Rightarrow> k = ValidatorSetChangePrefix E @ PubKey w)"
  using assms by (simp add: validator_entries_ok_def list_all_iff)

lemma validator_entries_ok_Remove:
  "validator_entries_ok E t \<Longrightarrow> validator_entries_ok E (tree_Remove key t)"
  by (rule validator_entries_okI, rule all_entries_tree_Remove, rule validator_entries_ok_all)

lemma validator_entries_ok_Set:
  assumes "validator_entries_ok E t"
    and "isValidatorTx E key \<longrightarrow>
           (case ReadMessage E bz of Inl err \<Rightarrow> False
            | Inr w \<Rightarrow> key = ValidatorSetChangePrefix E @ PubKey w)"
  shows "validator_entries_ok E (tree_Set key bz t)"
  by (rule validator_entries_okI, rule all_entries_tree_Set,
      rule validator_entries_ok_all, rule assms(1), rule assms(2))

lemma validator_entries_ok_empty:
  "entries t = [] \<Longrightarrow> validator_entries_ok E t"
  by (simp add: validator_entries_ok_def)

text \<open>
  Claim C6 says that a validator that was removed no longer appears in the enumeration. Here
  a key/value write, which CheckTx and DeliverTx accept, has put the encoding of a record of
  \<^verbatim>\<open>V1\<close> under another key with the validator prefix. The removal of \<^verbatim>\<open>V1\<close> returns
  OK, and the enumeration still contains a record with the public key \<^verbatim>\<open>V1\<close>.
\<close>

theorem DeliverTx_remove_validator_counterexample:
  "Code (snd (CheckTx sample_env sample_app1 (''db|||val:A='' @ sample_V1_5))) = Ok \<and>
   Code (snd (DeliverTx sample_env sample_app1 (''db|||val:A='' @ sample_V1_5))) = Ok \<and>
   fst (ToValidator sample_env (fst (FromBytes sample_env ''val|V1||V1/0''))) =
     \<lparr>PubKey = ''V1'', Power = 0\<rparr> \<and>
   tree_Has (state (fst (DeliverTx sample_env sample_app1 (''db|||val:A='' @ sample_V1_5)))) ''val:V1'' \<and>
   Code (snd (DeliverTx sample_env
                (fst (DeliverTx sample_env sample_app1 (''db|||val:A='' @ sample_V1_5)))
                ''val|V1||V1/0'')) = Ok \<and>
   Validators sample_env
     (fst (DeliverTx sample_env
             (fst (DeliverTx sample_env sample_app1 (''db|||val:A='' @ sample_V1_5)))
             ''val|V1||V1/0'')) = Inr [\<lparr>PubKey = ''V1'', Power = 5\<rparr>]"
  by code_simp

text \<open>
  Claim C6, amended. A ValidatorChange of power 0 for a public key without a record under
  the validator prefix is answered with Unauthorized and changes nothing. When the record is
  there, the response is OK and the record under the validator prefix followed by the public
  key is removed from the tree. When moreover the validator entries of the tree are well
  formed (every value under the validator prefix is the encoding of the record that its key
  names), they still are after the removal, the enumeration returns, and it contains no
  record with that public key.
\<close>

theorem DeliverTx_remove_validator:
  assumes tx: "Type (fst (FromBytes E txBytes)) = cnst_ValidatorSet E"
      "Type (fst (FromBytes E txBytes)) \<noteq> cnst_DbSet E"
      "Type (fst (FromBytes E txBytes)) \<noteq> cnst_AccountSet E"
      "fst (ToValidator E (fst (FromBytes E txBytes))) = v"
    and power: "Power v = 0"
  shows "(\<not> tree_Has (state app) (ValidatorSetChangePrefix E @ PubKey v) \<longrightarrow>
            Code (snd (DeliverTx E app txBytes)) = CodeTypeUnauthorized \<and>
            fst (DeliverTx E app txBytes) = app) \<and>
         (tree_Has (state app) (ValidatorSetChangePrefix E @ PubKey v) \<longrightarrow>
            Code (snd (DeliverTx E app txBytes)) = Ok \<and>
            state (fst (DeliverTx E app txBytes)) =
              tree_Remove (ValidatorSetChangePrefix E @ PubKey v) (state app) \<and>
            \<not> tree_Has (state (fst (DeliverTx E app txBytes))) (ValidatorSetChangePrefix E @ PubKey v) \<and>
            (validator_entries_ok E (state app) \<longrightarrow>
               validator_entries_ok E (state (fst (DeliverTx E app txBytes))) \<and>
               (\<exists>vs. Validators E (fst (DeliverTx E app txBytes)) = Inr vs \<and>
                     (\<forall>w \<in> set vs. PubKey w \<noteq> PubKey v))))"
proof (intro conjI impI)
  let ?key = "ValidatorSetChangePrefix E @ PubKey v"
  let ?app = "app\<lparr>state := tree_Remove ?key (state app), ValUpdates := ValUpdates app @ [v]\<rparr>"
  {
    assume "\<not> tree_Has (state app) ?key"
    with power show "Code (snd (DeliverTx E app txBytes)) = CodeTypeUnauthorized"
      and "fst (DeliverTx E app txBytes) = app"
      by (simp_all add: DeliverTx_ValidatorSet [OF tx])
  }
  assume "tree_Has (state app) ?key"
  with power have D: "DeliverTx E app txBytes = (?app, \<lparr>Code = Ok, Log = []\<rparr>)"
    by (simp add: DeliverTx_ValidatorSet [OF tx])
  from D show "Code (snd (DeliverTx E app txBytes)) = Ok" by simp
  from D show "state (fst (DeliverTx E app txBytes)) = tree_Remove ?key (state app)" by simp
  from D show "\<not> tree_Has (state (fst (DeliverTx E app txBytes))) ?key"
    by (simp add: tree_Has_Remove)
  assume ok: "validator_entries_ok E (state app)"
  have st: "state ?app = tree_Remove ?key (state app)" by simp
  from ok D show "validator_entries_ok E (state (fst (DeliverTx E app txBytes)))"
    by (simp add: validator_entries_ok_Remove)
  have "\<forall>(k, x) \<in> set (entries (state app)).
      isValidatorTx E k \<longrightarrow> (\<exists>w. ReadMessage E x = Inr w)"
    using validator_entries_okD [OF ok] by blast
  then have "\<forall>(k, x) \<in> set (entries (tree_Remove ?key (state app))).
      isValidatorTx E k \<longrightarrow> (\<exists>w. ReadMessage E x = Inr w)"
    by (rule all_entries_tree_Remove)
  then obtain vs where vs: "Validators E ?app = Inr vs"
    using Validators_Inr_iff [of E ?app] unfolding st by blast
  have "\<forall>w \<in> set vs. PubKey w \<noteq> PubKey v"
  proof
    fix w assume "w \<in> set vs"
    then obtain k x where kx: "(k, x) \<in> set (entries (state ?app))" "isValidatorTx E k"
        "ReadMessage E x = Inr w"
      unfolding Validators_set [OF vs] by blast
    from kx(1) have ne: "k \<noteq> ?key" and old: "(k, x) \<in> set (entries (state app))"
      unfolding st by (auto simp: set_entries_tree_Remove)
    from validator_entries_okD [OF ok old kx(2)] kx(3)
    have "k = ValidatorSetChangePrefix E @ PubKey w" by simp
    with ne show "PubKey w \<noteq> PubKey v" by auto
  qed
  with vs D show "\<exists>vs. Validators E (fst (DeliverTx E app txBytes)) = Inr vs \<and>
      (\<forall>w \<in> set vs. PubKey w \<noteq> PubKey v)" by simp
qed

text \<open>
  Removing \<^verbatim>\<open>V1\<close> from the empty application fails; after \<^verbatim>\<open>V1\<close> was added the
  removal succeeds and the enumeration has no \<^verbatim>\<open>V1\<close>.
\<close>

theorem DeliverTx_remove_validator_witness:
  "Power \<lparr>PubKey = ''V1'', Power = 0\<rparr> = 0 \<and>
   \<not> tree_Has (state sample_app0) ''val:V1'' \<and>
   Code (snd (DeliverTx sample_env sample_app0 ''val|V1||V1/0'')) = CodeTypeUnauthorized \<and>
   fst (DeliverTx sample_env sample_app0 ''val|V1||V1/0'') = sample_app0 \<and>
   validator_entries_ok sample_env (state sample_app0) \<and>
   state (fst (DeliverTx sample_env sample_app0 ''val|V1||V1/10'')) = state sample_app1 \<and>
   tree_Has (state sample_app1) ''val:V1'' \<and>
   validator_entries_ok sample_env (state sample_app1) \<and>
   Code (snd (DeliverTx sample_env sample_app1 ''val|V1||V1/0'')) = Ok \<and>
   \<not> tree_Has (state (fst (DeliverTx sample_env sample_app1 ''val|V1||V1/0''))) ''val:V1'' \<and>
   validator_entries_ok sample_env (state (fst (DeliverTx sample_env sample_app1 ''val|V1||V1/0''))) \<and>
   (\<exists>vs. Validators sample_env (fst (DeliverTx sample_env sample_app1 ''val|V1||V1/0'')) = Inr vs \<and>
         (\<forall>w \<in> set vs. PubKey w \<noteq> ''V1''))"
proof -
  have a: "Type (fst (FromBytes sample_env ''val|V1||V1/0'')) = cnst_ValidatorSet sample_env"
    by code_simp
  have b: "Type (fst (FromBytes sample_env ''val|V1||V1/0'')) \<noteq> cnst_DbSet sample_env"
    by code_simp
  have c: "Type (fst (FromBytes sample_env ''val|V1||V1/0'')) \<noteq> cnst_AccountSet sample_env"
    by code_simp
  have d: "fst (ToValidator sample_env (fst (FromBytes sample_env ''val|V1||V1/0''))) =
             \<lparr>PubKey = ''V1'', Power = 0\<rparr>"
    by code_simp
  have e: "Power \<lparr>PubKey = ''V1'', Power = 0\<rparr> = 0"
    by simp
  have p: "ValidatorSetChangePrefix sample_env = ''val:''"
    by code_simp
  have absent: "\<not> tree_Has (state sample_app0) ''val:V1''"
    by code_simp
  have ok0: "validator_entries_ok sample_env (state sample_app0)"
    by code_simp
  have added: "state (fst (DeliverTx sample_env sample_app0 ''val|V1||V1/10'')) = state sample_app1"
    by code_simp
  have present: "tree_Has (state sample_app1) ''val:V1''"
    by code_simp
  have ok: "validator_entries_ok sample_env (state sample_app1)"
    by code_simp
  from DeliverTx_remove_validator [OF a b c d e, of sample_app0] absent p
  have first: "Code (snd (DeliverTx sample_env sample_app0 ''val|V1||V1/0'')) = CodeTypeUnauthorized \<and>
     fst (DeliverTx sample_env sample_app0 ''val|V1||V1/0'') = sample_app0"
    by simp
  from DeliverTx_remove_validator [OF a b c d e, of sample_app1] present ok p
  have second: "Code (snd (DeliverTx sample_env sample_app1 ''val|V1||V1/0'')) = Ok \<and>
     \<not> tree_Has (state (fst (DeliverTx sample_env sample_app1 ''val|V1||V1/0''))) ''val:V1'' \<and>
     validator_entries_ok sample_env (state (fst (DeliverTx sample_env sample_app1 ''val|V1||V1/0''))) \<and>
     (\<exists>vs. Validators sample_env (fst (DeliverTx sample_env sample_app1 ''val|V1||V1/0'')) = Inr vs \<and>
           (\<forall>w \<in> set vs. PubKey w \<noteq> ''V1''))"
    by (simp add: tree_Has_Remove validator_entries_ok_Remove)
  from e absent first ok0 added present ok second show ?thesis by blast
qed

text \<open>
  Every transaction that DeliverTx does not hand to \<^verbatim>\<open>DbSave\<close> keeps the validator entries
  well formed: a validator change with the library's codec and a power in the range of
  \<^verbatim>\<open>int64\<close>, an account registration whose key is not under the validator prefix, and a
  transaction of unknown type. On an empty tree they are well formed.
\<close>

lemma DeliverTx_keeps_entries_ok:
  assumes codec: "WriteMessage E = lib_WriteMessage" "ReadMessage E = lib_ReadMessage"
    and nodb: "Type (fst (FromBytes E txBytes)) \<noteq> cnst_DbSet E"
    and range: "- (2 ^ 63) \<le> Power (fst (ToValidator E (fst (FromBytes E txBytes))))"
      "Power (fst (ToValidator E (fst (FromBytes E txBytes)))) < 2 ^ 63"
    and acc: "\<not> isValidatorTx E (cnst_AccountPrefix E @
                 acc_PubKey (fst (ToAccount E (fst (FromBytes E txBytes)))))"
    and ok: "validator_entries_ok E (state app)"
  shows "validator_entries_ok E (state (fst (DeliverTx E app txBytes)))"
proof -
  let ?tx = "fst (FromBytes E txBytes)"
  let ?v = "fst (ToValidator E ?tx)"
  let ?key = "ValidatorSetChangePrefix E @ PubKey ?v"
  consider (account) "Type ?tx = cnst_AccountSet E"
    | (validator) "Type ?tx \<noteq> cnst_AccountSet E" "Type ?tx = cnst_ValidatorSet E"
    | (unknown) "Type ?tx \<noteq> cnst_AccountSet E" "Type ?tx \<noteq> cnst_ValidatorSet E"
    by blast
  then show ?thesis
  proof cases
    case account
    with nodb have "state (fst (DeliverTx E app txBytes)) =
        tree_Set (cnst_AccountPrefix E @ acc_PubKey (fst (ToAccount E ?tx)))
                 (Itoa (acc_Power (fst (ToAccount E ?tx)))) (state app)"
      by (simp add: DeliverTx_def Let_def)
    with ok acc show ?thesis by (simp add: validator_entries_ok_Set)
  next
    case unknown
    with nodb have "fst (DeliverTx E app txBytes) = app"
      by (simp add: DeliverTx_def Let_def)
    with ok show ?thesis by simp
  next
    case validator
    note D = DeliverTx_ValidatorSet [OF validator(2) nodb validator(1) refl, of app]
    show ?thesis
    proof (cases "Power ?v = 0")
      case True
      then have "state (fst (DeliverTx E app txBytes)) = state app \<or>
          state (fst (DeliverTx E app txBytes)) = tree_Remove ?key (state app)"
        unfolding D by simp
      with ok show ?thesis by (auto simp: validator_entries_ok_Remove)
    next
      case False
      obtain bz where enc: "WriteMessage E ?v = Inr bz"
        by (simp add: codec lib_WriteMessage_def)
      from enc have dec: "ReadMessage E bz = Inr ?v"
        unfolding codec by (rule lib_ReadMessage_WriteMessage [OF range])
      from False enc have "state (fst (DeliverTx E app txBytes)) = tree_Set ?key bz (state app)"
        unfolding D by simp
      with ok dec show ?thesis by (simp add: validator_entries_ok_Set)
    qed
  qed
qed


subsection \<open>CheckTx on a signer that is not a genesis validator\<close>

text \<open>
  Claim C3 says that CheckTx answers Unauthorized to an AccountRegister or ValidatorChange
  whose signer is not a genesis validator. The account registration below is signed by
  \<^verbatim>\<open>V9\<close>, the genesis set holds \<^verbatim>\<open>V1\<close> only, and the code of the response is
  not Unauthorized.
\<close>

theorem CheckTx_non_genesis_signer_counterexample:
  "Type (fst (FromBytes sample_env ''acc|V9||V9/5'')) = cnst_AccountSet sample_env \<and>
   SignPubKey (fst (FromBytes sample_env ''acc|V9||V9/5'')) = ''V9'' \<and>
   GenesisValidators sample_app1 = Some [''V1'' \<mapsto> 10] \<and>
   [''V1'' \<mapsto> 10 :: int] ''V9'' = None \<and>
   Code (snd (CheckTx sample_env sample_app1 ''acc|V9||V9/5'')) \<noteq> CodeTypeUnauthorized"
proof -
  have "Type (fst (FromBytes sample_env ''acc|V9||V9/5'')) = cnst_AccountSet sample_env"
    by code_simp
  moreover have "SignPubKey (fst (FromBytes sample_env ''acc|V9||V9/5'')) = ''V9''"
    by code_simp
  moreover have "GenesisValidators sample_app1 = Some [''V1'' \<mapsto> 10]"
    by (simp add: sample_app1_def)
  moreover have "[''V1'' \<mapsto> 10 :: int] ''V9'' = None"
    by simp
  moreover have "Code (snd (CheckTx sample_env sample_app1 ''acc|V9||V9/5'')) \<noteq> CodeTypeUnauthorized"
    by code_simp
  ultimately show ?thesis by blast
qed

text \<open>
  Claim C3, amended. CheckTx rejects every AccountSet or ValidatorSet transaction whose
  signer has no power in \<^verbatim>\<open>GenesisValidators\<close> with the code EncodingError, the code
  of every rejection of CheckTx, and changes nothing. When the payload decodes without an
  error and carries no signature, the log is the message of lines 153 and 168.
\<close>

theorem CheckTx_non_genesis_signer:
  assumes "Type (fst (FromBytes E txBytes)) = cnst_AccountSet E \<or>
           Type (fst (FromBytes E txBytes)) = cnst_ValidatorSet E"
    and "Type (fst (FromBytes E txBytes)) \<noteq> cnst_DbSet E"
    and "GenesisValidators_at app (SignPubKey (fst (FromBytes E txBytes))) = 0"
  shows "Code (snd (CheckTx E app txBytes)) = CodeTypeEncodingError \<and>
         fst (CheckTx E app txBytes) = app \<and>
         (snd (FromBytes E txBytes) = None \<and> Signature (fst (FromBytes E txBytes)) = [] \<longrightarrow>
            snd (CheckTx E app txBytes) =
              \<lparr>Code = CodeTypeEncodingError, Log = log_bad_validator\<rparr>)"
proof (cases "FromBytes E txBytes")
  case (Pair tx1 err)
  show ?thesis
  proof (cases err)
    case (Some e)
    with Pair show ?thesis by (simp add: CheckTx_def)
  next
    case None
    with Pair assms have c: "Code (snd (CheckTx E app txBytes)) = CodeTypeEncodingError"
      by (auto simp add: CheckTx_def)
    from None Pair assms have l: "Signature (fst (FromBytes E txBytes)) = [] \<longrightarrow>
        snd (CheckTx E app txBytes) = \<lparr>Code = CodeTypeEncodingError, Log = log_bad_validator\<rparr>"
      by (auto simp add: CheckTx_def)
    from c l show ?thesis by (simp add: CheckTx_fst)
  qed
qed

text \<open>
  The same registration signed by \<^verbatim>\<open>V9\<close>, which carries no signature.
\<close>

theorem CheckTx_non_genesis_signer_witness:
  "GenesisValidators_at sample_app1 ''V9'' = 0 \<and>
   snd (FromBytes sample_env ''acc|V9||V9/5'') = None \<and>
   Signature (fst (FromBytes sample_env ''acc|V9||V9/5'')) = [] \<and>
   snd (CheckTx sample_env sample_app1 ''acc|V9||V9/5'') =
     \<lparr>Code = CodeTypeEncodingError, Log = log_bad_validator\<rparr> \<and>
   fst (CheckTx sample_env sample_app1 ''acc|V9||V9/5'') = sample_app1"
proof -
  have a: "Type (fst (FromBytes sample_env ''acc|V9||V9/5'')) = cnst_AccountSet sample_env \<or>
           Type (fst (FromBytes sample_env ''acc|V9||V9/5'')) = cnst_ValidatorSet sample_env"
    by code_simp
  have b: "Type (fst (FromBytes sample_env ''acc|V9||V9/5'')) \<noteq> cnst_DbSet sample_env"
    by code_simp
  have k: "SignPubKey (fst (FromBytes sample_env ''acc|V9||V9/5'')) = ''V9''"
    by code_simp
  have c: "GenesisValidators_at sample_app1 ''V9'' = 0"
    by code_simp
  have d: "snd (FromBytes sample_env ''acc|V9||V9/5'') = None"
    by code_simp
  have e: "Signature (fst (FromBytes sample_env ''acc|V9||V9/5'')) = []"
    by code_simp
  from CheckTx_non_genesis_signer [OF a b, of sample_app1] c k d e show ?thesis by simp
qed

subsection \<open>Transactions of unknown type\<close>

text \<open>
  Claim C7 says that CheckTx answers a payload of unknown type with the log "unknown
  transaction type". The payload below has an unknown type and a signature, and its signer
  has no account in the tree: the log of CheckTx is that of the account check, which comes
  before the type is looked at.
\<close>

theorem Unknown_tx_log_counterexample:
  "Type (fst (FromBytes sample_env ''zzz|V1|sig|x'')) \<noteq> cnst_DbSet sample_env \<and>
   Type (fst (FromBytes sample_env ''zzz|V1|sig|x'')) \<noteq> cnst_AccountSet sample_env \<and>
   Type (fst (FromBytes sample_env ''zzz|V1|sig|x'')) \<noteq> cnst_ValidatorSet sample_env \<and>
   snd (FromBytes sample_env ''zzz|V1|sig|x'') = None \<and>
   \<not> tree_Has (state sample_app1)
        (AccountSetChangePrefix sample_env @ SignPubKey (fst (FromBytes sample_env ''zzz|V1|sig|x''))) \<and>
   snd (CheckTx sample_env sample_app1 ''zzz|V1|sig|x'') =
     \<lparr>Code = CodeTypeEncodingError, Log = log_no_account\<rparr> \<and>
   Log (snd (CheckTx sample_env sample_app1 ''zzz|V1|sig|x'')) \<noteq> ''unknown transaction type''"
  by code_simp

text \<open>
  Claim C7, amended. For a payload of unknown type DeliverTx returns EncodingError with the
  log "unknown transaction type" and changes nothing, so that a following Commit is the same.
  CheckTx returns EncodingError and changes nothing; its log is "unknown transaction type"
  when the payload decodes without an error and carries no signature, and the error of the
  decoder when there is one. Nothing is said here of the log for a payload with a signature.
\<close>

theorem Unknown_tx_rejected:
  assumes "Type (fst (FromBytes E txBytes)) \<noteq> cnst_DbSet E"
    and "Type (fst (FromBytes E txBytes)) \<noteq> cnst_AccountSet E"
    and "Type (fst (FromBytes E txBytes)) \<noteq> cnst_ValidatorSet E"
  shows "DeliverTx E app txBytes =
           (app, \<lparr>Code = CodeTypeEncodingError, Log = ''unknown transaction type''\<rparr>) \<and>
         Commit E (fst (DeliverTx E app txBytes)) = Commit E app \<and>
         Code (snd (CheckTx E app txBytes)) = CodeTypeEncodingError \<and>
         fst (CheckTx E app txBytes) = app \<and>
         (snd (FromBytes E txBytes) = None \<and> Signature (fst (FromBytes E txBytes)) = [] \<longrightarrow>
          snd (CheckTx E app txBytes) =
            \<lparr>Code = CodeTypeEncodingError, Log = ''unknown transaction type''\<rparr>) \<and>
         (\<forall>err. snd (FromBytes E txBytes) = Some err \<longrightarrow>
          snd (CheckTx E app txBytes) = \<lparr>Code = CodeTypeEncodingError, Log = err\<rparr>)"
proof -
  from assms have D: "DeliverTx E app txBytes =
      (app, \<lparr>Code = CodeTypeEncodingError, Log = ''unknown transaction type''\<rparr>)"
    by (simp add: DeliverTx_def Let_def)
  obtain tx1 err where F: "FromBytes E txBytes = (tx1, err)"
    by (cases "FromBytes E txBytes")
  from assms F have C: "Code (snd (CheckTx E app txBytes)) = CodeTypeEncodingError"
    by (cases err) (simp_all add: CheckTx_def)
  from assms F have L: "snd (FromBytes E txBytes) = None \<and>
          Signature (fst (FromBytes E txBytes)) = [] \<longrightarrow>
          snd (CheckTx E app txBytes) =
            \<lparr>Code = CodeTypeEncodingError, Log = ''unknown transaction type''\<rparr>"
    by (auto simp add: CheckTx_def)
  from F have X: "\<forall>e. snd (FromBytes E txBytes) = Some e \<longrightarrow>
          snd (CheckTx E app txBytes) = \<lparr>Code = CodeTypeEncodingError, Log = e\<rparr>"
    by (auto simp add: CheckTx_def)
  from D C L X show ?thesis by (simp add: CheckTx_fst)
qed

text \<open>
  An unsigned payload of unknown type, and a payload that the decoder refuses.
\<close>

theorem Unknown_tx_rejected_witness:
  "DeliverTx sample_env sample_app1 ''zzz|V1||x'' =
     (sample_app1, \<lparr>Code = CodeTypeEncodingError, Log = ''unknown transaction type''\<rparr>) \<and>
   Commit sample_env (fst (DeliverTx sample_env sample_app1 ''zzz|V1||x'')) = Commit sample_env sample_app1 \<and>
   snd (CheckTx sample_env sample_app1 ''zzz|V1||x'') =
     \<lparr>Code = CodeTypeEncodingError, Log = ''unknown transaction type''\<rparr> \<and>
   DeliverTx sample_env sample_app1 ''garbage'' =
     (sample_app1, \<lparr>Code = CodeTypeEncodingError, Log = ''unknown transaction type''\<rparr>) \<and>
   snd (CheckTx sample_env sample_app1 ''garbage'') =
     \<lparr>Code = CodeTypeEncodingError, Log = ''malformed transaction''\<rparr>"
proof -
  have a: "Type (fst (FromBytes sample_env ''zzz|V1||x'')) \<noteq> cnst_DbSet sample_env"
    by code_simp
  have b: "Type (fst (FromBytes sample_env ''zzz|V1||x'')) \<noteq> cnst_AccountSet sample_env"
    by code_simp
  have c: "Type (fst (FromBytes sample_env ''zzz|V1||x'')) \<noteq> cnst_ValidatorSet sample_env"
    by code_simp
  have d: "snd (FromBytes sample_env ''zzz|V1||x'') = None"
    by code_simp
  have e: "Signature (fst (FromBytes sample_env ''zzz|V1||x'')) = []"
    by code_simp
  have a': "Type (fst (FromBytes sample_env ''garbage'')) \<noteq> cnst_DbSet sample_env"
    by code_simp
  have b': "Type (fst (FromBytes sample_env ''garbage'')) \<noteq> cnst_AccountSet sample_env"
    by code_simp
  have c': "Type (fst (FromBytes sample_env ''garbage'')) \<noteq> cnst_ValidatorSet sample_env"
    by code_simp
  have d': "snd (FromBytes sample_env ''garbage'') = Some ''malformed transaction''"
    by code_simp
  from Unknown_tx_rejected [OF a b c, of sample_app1] d e
  have first: "DeliverTx sample_env sample_app1 ''zzz|V1||x'' =
       (sample_app1, \<lparr>Code = CodeTypeEncodingError, Log = ''unknown transaction type''\<rparr>) \<and>
     Commit sample_env (fst (DeliverTx sample_env sample_app1 ''zzz|V1||x'')) = Commit sample_env sample_app1 \<and>
     snd (CheckTx sample_env sample_app1 ''zzz|V1||x'') =
       \<lparr>Code = CodeTypeEncodingError, Log = ''unknown transaction type''\<rparr>"
    by simp
  from Unknown_tx_rejected [OF a' b' c', of sample_app1] d'
  have second: "DeliverTx sample_env sample_app1 ''garbage'' =
       (sample_app1, \<lparr>Code = CodeTypeEncodingError, Log = ''unknown transaction type''\<rparr>) \<and>
     snd (CheckTx sample_env sample_app1 ''garbage'') =
       \<lparr>Code = CodeTypeEncodingError, Log = ''malformed transaction''\<rparr>"
    by simp
  from first second show ?thesis by blast
qed

subsection \<open>DeliverTx and the signer\<close>

text \<open>
  Claim C9. DeliverTx reads the type of the decoded transaction and what the decoders of
  the body return, never the signature, the signer or \<^verbatim>\<open>GenesisValidators\<close>. For two
  payloads that agree on the type and on the decoded body, on applications with the same
  tree and pending updates (the genesis validators may differ), the response, the resulting
  tree and the resulting pending updates are the same; the genesis validators are left
  as they were.
\<close>

theorem DeliverTx_ignores_signer:
  assumes "Type (fst (FromBytes E b1)) = Type (fst (FromBytes E b2))"
    and "fst (ToAccount E (fst (FromBytes E b1))) = fst (ToAccount E (fst (FromBytes E b2)))"
    and "fst (ToValidator E (fst (FromBytes E b1))) = fst (ToValidator E (fst (FromBytes E b2)))"
    and "DbSave E (fst (FromBytes E b1)) (state app1) = DbSave E (fst (FromBytes E b2)) (state app1)"
    and "state app2 = state app1"
    and "ValUpdates app2 = ValUpdates app1"
  shows "snd (DeliverTx E app1 b1) = snd (DeliverTx E app2 b2) \<and>
         state (fst (DeliverTx E app1 b1)) = state (fst (DeliverTx E app2 b2)) \<and>
         ValUpdates (fst (DeliverTx E app1 b1)) = ValUpdates (fst (DeliverTx E app2 b2)) \<and>
         GenesisValidators (fst (DeliverTx E app1 b1)) = GenesisValidators app1"
  using assms by (simp add: DeliverTx_def Let_def split: sum.split)

text \<open>
  The same validator change signed by the genesis validator \<^verbatim>\<open>V1\<close> and, with a
  signature, by \<^verbatim>\<open>V9\<close>: CheckTx rejects the second, DeliverTx executes both alike.
\<close>

theorem DeliverTx_ignores_signer_witness:
  "Code (snd (CheckTx sample_env sample_app1 ''val|V1||V2/20'')) = Ok \<and>
   Code (snd (CheckTx sample_env sample_app1 ''val|V9|forged|V2/20'')) = CodeTypeEncodingError \<and>
   Code (snd (DeliverTx sample_env (sample_app1\<lparr>GenesisValidators := None\<rparr>) ''val|V9|forged|V2/20'')) = Ok \<and>
   snd (DeliverTx sample_env sample_app1 ''val|V1||V2/20'') =
     snd (DeliverTx sample_env (sample_app1\<lparr>GenesisValidators := None\<rparr>) ''val|V9|forged|V2/20'') \<and>
   state (fst (DeliverTx sample_env sample_app1 ''val|V1||V2/20'')) =
     state (fst (DeliverTx sample_env (sample_app1\<lparr>GenesisValidators := None\<rparr>) ''val|V9|forged|V2/20'')) \<and>
   ValUpdates (fst (DeliverTx sample_env sample_app1 ''val|V1||V2/20'')) =
     ValUpdates (fst (DeliverTx sample_env (sample_app1\<lparr>GenesisValidators := None\<rparr>) ''val|V9|forged|V2/20''))"
proof -
  have a: "Type (fst (FromBytes sample_env ''val|V1||V2/20'')) =
           Type (fst (FromBytes sample_env ''val|V9|forged|V2/20''))"
    by code_simp
  have b: "fst (ToAccount sample_env (fst (FromBytes sample_env ''val|V1||V2/20''))) =
           fst (ToAccount sample_env (fst (FromBytes sample_env ''val|V9|forged|V2/20'')))"
    by code_simp
  have c: "fst (ToValidator sample_env (fst (FromBytes sample_env ''val|V1||V2/20''))) =
           fst (ToValidator sample_env (fst (FromBytes sample_env ''val|V9|forged|V2/20'')))"
    by code_simp
  have d: "DbSave sample_env (fst (FromBytes sample_env ''val|V1||V2/20'')) (state sample_app1) =
           DbSave sample_env (fst (FromBytes sample_env ''val|V9|forged|V2/20'')) (state sample_app1)"
    by code_simp
  have e: "state (sample_app1\<lparr>GenesisValidators := None\<rparr>) = state sample_app1"
    by simp
  have f: "ValUpdates (sample_app1\<lparr>GenesisValidators := None\<rparr>) = ValUpdates sample_app1"
    by simp
  have g: "Code (snd (CheckTx sample_env sample_app1 ''val|V1||V2/20'')) = Ok"
    by code_simp
  have h: "Code (snd (CheckTx sample_env sample_app1 ''val|V9|forged|V2/20'')) = CodeTypeEncodingError"
    by code_simp
  have i: "Code (snd (DeliverTx sample_env sample_app1 ''val|V1||V2/20'')) = Ok"
    by code_simp
  from DeliverTx_ignores_signer [OF a b c d e f] g h i show ?thesis by simp
qed

end
